theory Spec2Isabelle
  imports Main
begin

section \<open>git-tidy: a shallow embedding of main.go\<close>

text \<open>
  Go strings are byte sequences; they are modelled as HOL strings (lists of 8-bit
  characters). Calls into the Go standard library, into third-party packages and into the
  operating system are fields of the record \<open>world\<close> below, named after the Go function they
  stand for; the functions of main.go itself are translated one to one.
\<close>

subsection \<open>The strings package\<close>

definition HasPrefix :: "string \<Rightarrow> string \<Rightarrow> bool" where
  "HasPrefix s p = (take (length p) s = p)"

definition HasSuffix :: "string \<Rightarrow> string \<Rightarrow> bool" where
  "HasSuffix s x = (length x \<le> length s \<and> drop (length s - length x) s = x)"

definition TrimPrefix :: "string \<Rightarrow> string \<Rightarrow> string" where
  "TrimPrefix s p = (if HasPrefix s p then drop (length p) s else s)"

definition TrimSuffix :: "string \<Rightarrow> string \<Rightarrow> string" where
  "TrimSuffix s x = (if HasSuffix s x then take (length s - length x) s else s)"

text \<open>
  \<open>strings.TrimSpace\<close> removes leading and trailing runes for which \<open>unicode.IsSpace\<close>
  holds. The string is decoded as UTF-8, so the white space runes are listed by their
  encodings: the six ASCII ones, U+0085, U+00A0, U+1680, U+2000 to U+200A, U+2028, U+2029,
  U+202F, U+205F and U+3000.
\<close>

definition spaceRunes :: "string list" where
  "spaceRunes =
     [[CHR 0x09], [CHR 0x0A], [CHR 0x0B], [CHR 0x0C], [CHR 0x0D], [CHR 0x20],
      [CHR 0xC2, CHR 0x85], [CHR 0xC2, CHR 0xA0],
      [CHR 0xE1, CHR 0x9A, CHR 0x80],
      [CHR 0xE2, CHR 0x80, CHR 0x80], [CHR 0xE2, CHR 0x80, CHR 0x81],
      [CHR 0xE2, CHR 0x80, CHR 0x82], [CHR 0xE2, CHR 0x80, CHR 0x83],
      [CHR 0xE2, CHR 0x80, CHR 0x84], [CHR 0xE2, CHR 0x80, CHR 0x85],
      [CHR 0xE2, CHR 0x80, CHR 0x86], [CHR 0xE2, CHR 0x80, CHR 0x87],
      [CHR 0xE2, CHR 0x80, CHR 0x88], [CHR 0xE2, CHR 0x80, CHR 0x89],
      [CHR 0xE2, CHR 0x80, CHR 0x8A],
      [CHR 0xE2, CHR 0x80, CHR 0xA8], [CHR 0xE2, CHR 0x80, CHR 0xA9],
      [CHR 0xE2, CHR 0x80, CHR 0xAF], [CHR 0xE2, CHR 0x81, CHR 0x9F],
      [CHR 0xE3, CHR 0x80, CHR 0x80]]"

text \<open>The number of bytes of the white space rune a string starts with, 0 if there is none.\<close>

fun leadingSpace :: "string list \<Rightarrow> string \<Rightarrow> nat" where
  "leadingSpace [] s = 0"
| "leadingSpace (r # rs) s = (if r \<noteq> [] \<and> HasPrefix s r then length r else leadingSpace rs s)"

function TrimLeftSpace :: "string list \<Rightarrow> string \<Rightarrow> string" where
  "TrimLeftSpace rs s =
     (if leadingSpace rs s = 0 \<or> s = [] then s else TrimLeftSpace rs (drop (leadingSpace rs s) s))"
  by pat_completeness auto
termination
  by (relation "measure (\<lambda>(rs, s). length s)") auto

declare TrimLeftSpace.simps [simp del]

definition TrimSpace :: "string \<Rightarrow> string" where
  "TrimSpace s =
     rev (TrimLeftSpace (map rev spaceRunes) (rev (TrimLeftSpace spaceRunes s)))"

subsection \<open>Errors\<close>

text \<open>
  A Go \<open>error\<close> is a value. \<open>ExternalError\<close> is an error produced outside main.go (a
  subprocess, the file system, a library); the other constructors are the
  \<open>fmt.Errorf\<close> sites of main.go, with their arguments:
  \<^item> \<open>HomeDirError\<close>: "could not find home directory: %w"
  \<^item> \<open>ReadConfigError\<close>: "could not read gh config file %s: %w"
  \<^item> \<open>ParseConfigError\<close>: "could not parse gh config file: %w"
  \<^item> \<open>NoTokenError\<close>: "no GitHub token found in gh config or keyring"
  \<^item> \<open>RemoteURLError\<close>: "failed to get remote URL: %w"
  \<^item> \<open>RepoParseError\<close>: "could not parse GitHub repo from URL: %s"
  \<^item> \<open>RepoFormatError\<close>: "invalid repo format: %s"
  \<^item> \<open>APIError\<close>: "GitHub API error: %s - %s"
  \<^item> \<open>ErrTooLong\<close>: \<open>bufio.ErrTooLong\<close>, the scanner's "token too long"
\<close>

datatype error =
    ExternalError string
  | HomeDirError error
  | ReadConfigError string error
  | ParseConfigError error
  | NoTokenError
  | RemoteURLError error
  | RepoParseError string
  | RepoFormatError string
  | APIError string string
  | ErrTooLong

subsection \<open>parseGitHubRepo\<close>

text \<open>
  The SSH pattern is \<^verbatim>\<open>git@github\.com:([^/]+)/(.+?)(?:\.git)?$\<close>. It is not anchored at
  the start, so \<open>FindStringSubmatch\<close> returns the leftmost match. \<open>sshMatchAt\<close> matches the
  pattern at the start of a suffix of the input and returns the two capture groups:
  \<^item> the literal \<^verbatim>\<open>git@github.com:\<close>;
  \<^item> \<^verbatim>\<open>([^/]+)/\<close>: group 1 is the non-empty run of bytes up to the first slash, which
    must be there;
  \<^item> \<^verbatim>\<open>(.+?)(?:\.git)?$\<close>: the rest must be non-empty and free of newlines, since
    \<^verbatim>\<open>.\<close> does not match a newline and \<^verbatim>\<open>$\<close> is the end of the text; the lazy group 2
    stops at the first point from where \<^verbatim>\<open>(?:\.git)?$\<close> matches, that is before a final
    \<^verbatim>\<open>.git\<close> when at least one byte precedes it, and at the end of the text otherwise.
\<close>

definition sshMatchAt :: "string \<Rightarrow> (string \<times> string) option" where
  "sshMatchAt s =
     (if \<not> HasPrefix s ''git@github.com:'' then None
      else let r = drop (length ''git@github.com:'') s;
               owner = takeWhile (\<lambda>c. c \<noteq> CHR ''/'') r;
               r1 = dropWhile (\<lambda>c. c \<noteq> CHR ''/'') r
           in if owner = [] \<or> r1 = [] then None
              else let r2 = tl r1
                   in if r2 = [] \<or> CHR 0x0A \<in> set r2 then None
                      else if 4 < length r2 \<and> HasSuffix r2 ''.git''
                           then Some (owner, take (length r2 - 4) r2)
                           else Some (owner, r2))"

fun FindStringSubmatch :: "string \<Rightarrow> (string \<times> string) option" where
  "FindStringSubmatch [] = sshMatchAt []"
| "FindStringSubmatch (c # cs) =
     (case sshMatchAt (c # cs) of Some m \<Rightarrow> Some m | None \<Rightarrow> FindStringSubmatch cs)"

text \<open>The fields of \<open>url.URL\<close> that main.go reads.\<close>

record URL =
  Host :: string
  Path :: string

text \<open>
  \<open>url_Parse\<close> stands for \<open>net/url.Parse\<close>. The SSH rule returns \<open>matches[1]\<close>, a slash,
  and \<open>matches[2]\<close> without a trailing \<^verbatim>\<open>.git\<close>; the URL rule returns the path without one
  leading slash and without a trailing \<^verbatim>\<open>.git\<close>.
\<close>

definition parseGitHubRepo :: "(string \<Rightarrow> error + URL) \<Rightarrow> string \<Rightarrow> error + string" where
  "parseGitHubRepo url_Parse remoteURL =
     (case FindStringSubmatch remoteURL of
        Some (m1, m2) \<Rightarrow> Inr (m1 @ ''/'' @ TrimSuffix m2 ''.git'')
      | None \<Rightarrow>
          (case url_Parse remoteURL of
             Inr u \<Rightarrow>
               if Host u = ''github.com''
               then Inr (TrimSuffix (TrimPrefix (Path u) ''/'') ''.git'')
               else Inl (RepoParseError remoteURL)
           | Inl err \<Rightarrow> Inl (RepoParseError remoteURL)))"

subsection \<open>Data read and written by main.go\<close>

record ghHostConfig =
  OAuthToken :: string

record PullRequest =
  Number :: int
  State :: string
  MergedAt :: string
  HeadRefName :: string

text \<open>
  An element of the anonymous struct slice \<open>prs\<close> that \<open>findPRForBranch\<close> decodes the
  response into; \<open>item_Head_Ref\<close> is \<open>Head.Ref\<close>.
\<close>

record prItem =
  item_Number :: int
  item_State :: string
  item_MergedAt :: string
  item_Head_Ref :: string

record Request =
  req_Method :: string
  req_URL :: string
  req_Header :: "(string \<times> string) list"

text \<open>\<open>Body\<close> is what \<open>io.ReadAll(resp.Body)\<close> returns: the bytes read and the error, if any.\<close>

record Response =
  StatusCode :: int
  Status :: string
  Body :: "string \<times> error option"

subsection \<open>The world outside main.go\<close>

text \<open>
  \<open>os_Args\<close> is \<open>os.Args[1:]\<close>. \<open>exec_Output\<close> and \<open>exec_Run\<close> take the command line and
  stand for \<open>exec.Command(...).Output()\<close> and \<open>exec.Command(...).Run()\<close>. \<open>http_NewRequest\<close>
  gives the error of \<open>http.NewRequest\<close> for a method and a URL, if there is one.
  \<open>yaml_Unmarshal\<close> and \<open>json_Unmarshal\<close> give the decoded value of the target type.
  An answer of the world depends on the arguments of the call only.
\<close>

record world =
  os_Args :: "string list"
  os_Getenv :: "string \<Rightarrow> string"
  runtime_GOOS :: string
  os_UserHomeDir :: "error + string"
  filepath_Join :: "string list \<Rightarrow> string"
  os_ReadFile :: "string \<Rightarrow> error + string"
  yaml_Unmarshal :: "string \<Rightarrow> error + (string \<rightharpoonup> ghHostConfig)"
  keyring_Get :: "string \<Rightarrow> string \<Rightarrow> error + string"
  exec_Output :: "string list \<Rightarrow> error + string"
  exec_Run :: "string list \<Rightarrow> error option"
  url_Parse :: "string \<Rightarrow> error + URL"
  http_NewRequest :: "string \<Rightarrow> string \<Rightarrow> error option"
  http_Do :: "Request \<Rightarrow> error + Response"
  json_Unmarshal :: "string \<Rightarrow> error + prItem list"

text \<open>
  What main.go prints, one constructor for each print statement with a format:
  \<^item> \<open>Line s\<close>: \<open>fmt.Println(s)\<close> of a constant
  \<^item> \<open>ErrorGettingBranches\<close>: "Error getting local branches: %v"
  \<^item> \<open>FoundBranches\<close>: "Found %d branches to check"
  \<^item> \<open>ErrorGettingToken\<close>: "Error getting GitHub token: %v"
  \<^item> \<open>ErrorGettingRepo\<close>: "Error getting repo name: %v"
  \<^item> \<open>ErrorCheckingPR\<close>: "  %s: error checking PR: %v"
  \<^item> \<open>NoPRFound\<close>: "  %s: no PR found"
  \<^item> \<open>PRMerged\<close>: "  %s: PR #%d merged"
  \<^item> \<open>PRNotMerged\<close>: "  %s: PR #%d not merged (state: %s)"
  \<^item> \<open>BranchesToDelete\<close>: "Branches to delete: %d", after an empty line
  \<^item> \<open>WouldDelete\<close>: "  Would delete: %s"
  \<^item> \<open>ErrorDeleting\<close>: "  Error deleting %s: %v"
  \<^item> \<open>Deleted\<close>: "  Deleted: %s"
\<close>

datatype message =
    Line string
  | ErrorGettingBranches error
  | FoundBranches nat
  | ErrorGettingToken error
  | ErrorGettingRepo error
  | ErrorCheckingPR string error
  | NoPRFound string
  | PRMerged string int
  | PRNotMerged string int string
  | BranchesToDelete nat
  | WouldDelete string
  | ErrorDeleting string error
  | Deleted string

text \<open>
  The effects of a run, in order: reads of the environment, of the file system and of the
  keyring, subprocesses, HTTP requests, and prints to standard output (\<open>Print\<close>) and to
  standard error (\<open>PrintErr\<close>).
\<close>

datatype event =
    Getenv string
  | UserHomeDir
  | ReadFile string
  | KeyringGet string string
  | Output "string list"
  | Run "string list"
  | Do Request
  | Print message
  | PrintErr message

subsection \<open>getGitHubToken\<close>

text \<open>The directory of the gh configuration, with the reads made to find it.\<close>

definition configDir :: "world \<Rightarrow> event list \<times> (error + string)" where
  "configDir w =
     (if os_Getenv w ''GH_CONFIG_DIR'' \<noteq> ''''
      then ([Getenv ''GH_CONFIG_DIR''], Inr (os_Getenv w ''GH_CONFIG_DIR''))
      else if runtime_GOOS w = ''windows''
      then ([Getenv ''GH_CONFIG_DIR'', Getenv ''APPDATA''],
            Inr (filepath_Join w [os_Getenv w ''APPDATA'', ''GitHub CLI'']))
      else (case os_UserHomeDir w of
              Inl err \<Rightarrow> ([Getenv ''GH_CONFIG_DIR'', UserHomeDir], Inl (HomeDirError err))
            | Inr home \<Rightarrow>
                ([Getenv ''GH_CONFIG_DIR'', UserHomeDir],
                 Inr (filepath_Join w [home, ''.config'', ''gh'']))))"

text \<open>The last step of \<open>getGitHubToken\<close>: the system keyring, and the final error.\<close>

definition keyringToken :: "world \<Rightarrow> event list \<times> (error + string)" where
  "keyringToken w =
     (case keyring_Get w ''gh:github.com'' '''' of
        Inr token \<Rightarrow>
          if token \<noteq> '''' then ([KeyringGet ''gh:github.com'' ''''], Inr token)
          else ([KeyringGet ''gh:github.com'' ''''], Inl NoTokenError)
      | Inl err \<Rightarrow> ([KeyringGet ''gh:github.com'' ''''], Inl NoTokenError))"

text \<open>The part of \<open>getGitHubToken\<close> after the configuration file has been decoded.\<close>

definition tokenFromHosts ::
  "world \<Rightarrow> (string \<rightharpoonup> ghHostConfig) \<Rightarrow> event list \<times> (error + string)" where
  "tokenFromHosts w hosts =
     (case hosts ''github.com'' of
        Some hostConfig \<Rightarrow>
          if OAuthToken hostConfig \<noteq> '''' then ([], Inr (OAuthToken hostConfig))
          else keyringToken w
      | None \<Rightarrow> keyringToken w)"

definition getGitHubToken :: "world \<Rightarrow> event list \<times> (error + string)" where
  "getGitHubToken w =
     (if os_Getenv w ''GH_TOKEN'' \<noteq> ''''
      then ([Getenv ''GH_TOKEN''], Inr (os_Getenv w ''GH_TOKEN''))
      else if os_Getenv w ''GITHUB_TOKEN'' \<noteq> ''''
      then ([Getenv ''GH_TOKEN'', Getenv ''GITHUB_TOKEN''], Inr (os_Getenv w ''GITHUB_TOKEN''))
      else (case configDir w of
              (ev, Inl err) \<Rightarrow> ([Getenv ''GH_TOKEN'', Getenv ''GITHUB_TOKEN''] @ ev, Inl err)
            | (ev, Inr dir) \<Rightarrow>
                (case os_ReadFile w (filepath_Join w [dir, ''hosts.yml'']) of
                   Inl err \<Rightarrow>
                     ([Getenv ''GH_TOKEN'', Getenv ''GITHUB_TOKEN''] @ ev
                        @ [ReadFile (filepath_Join w [dir, ''hosts.yml''])],
                      Inl (ReadConfigError (filepath_Join w [dir, ''hosts.yml'']) err))
                 | Inr data \<Rightarrow>
                     (case yaml_Unmarshal w data of
                        Inl err \<Rightarrow>
                          ([Getenv ''GH_TOKEN'', Getenv ''GITHUB_TOKEN''] @ ev
                             @ [ReadFile (filepath_Join w [dir, ''hosts.yml''])],
                           Inl (ParseConfigError err))
                      | Inr hosts \<Rightarrow>
                          ([Getenv ''GH_TOKEN'', Getenv ''GITHUB_TOKEN''] @ ev
                             @ [ReadFile (filepath_Join w [dir, ''hosts.yml''])]
                             @ fst (tokenFromHosts w hosts),
                           snd (tokenFromHosts w hosts))))))"

subsection \<open>getLocalBranches\<close>

text \<open>
  \<open>bufio.Scanner\<close> with the default split function \<open>ScanLines\<close> and the default buffer:
  the tokens that \<open>Scan\<close> delivers before it returns false, and \<open>Err()\<close>. A token is a
  line without its newline and without one carriage return before it; the last line need
  not end in a newline. A line of 65536 bytes or more stops the scanner with \<open>ErrTooLong\<close>.
\<close>

definition dropCR :: "string \<Rightarrow> string" where
  "dropCR data = (if data \<noteq> [] \<and> last data = CHR 0x0D then butlast data else data)"

function scanLines :: "string \<Rightarrow> string list \<times> error option" where
  "scanLines s =
     (if s = [] then ([], None)
      else if 65536 \<le> length (takeWhile (\<lambda>c. c \<noteq> CHR 0x0A) s) then ([], Some ErrTooLong)
      else (case scanLines (drop (Suc (length (takeWhile (\<lambda>c. c \<noteq> CHR 0x0A) s))) s) of
              (toks, err) \<Rightarrow> (dropCR (takeWhile (\<lambda>c. c \<noteq> CHR 0x0A) s) # toks, err)))"
  by pat_completeness auto
termination
  by (relation "measure length") auto

declare scanLines.simps [simp del]

text \<open>The loop over the scanner, with the slice \<open>branches\<close> it appends to.\<close>

fun collectBranches :: "string list \<Rightarrow> string list \<Rightarrow> string list" where
  "collectBranches branches [] = branches"
| "collectBranches branches (text # rest) =
     (if TrimSpace text \<noteq> '''' \<and> TrimSpace text \<noteq> ''main'' \<and> TrimSpace text \<noteq> ''master''
      then collectBranches (branches @ [TrimSpace text]) rest
      else collectBranches branches rest)"

definition getLocalBranches :: "world \<Rightarrow> event list \<times> string list \<times> error option" where
  "getLocalBranches w =
     (case exec_Output w [''git'', ''branch'', ''--format=%(refname:short)''] of
        Inl err \<Rightarrow> ([Output [''git'', ''branch'', ''--format=%(refname:short)'']], [], Some err)
      | Inr output \<Rightarrow>
          ([Output [''git'', ''branch'', ''--format=%(refname:short)'']],
           collectBranches [] (fst (scanLines output)), snd (scanLines output)))"

subsection \<open>getRepoName\<close>

definition getRepoName :: "world \<Rightarrow> event list \<times> (error + string)" where
  "getRepoName w =
     (case exec_Output w [''git'', ''remote'', ''get-url'', ''origin''] of
        Inl err \<Rightarrow> ([Output [''git'', ''remote'', ''get-url'', ''origin'']], Inl (RemoteURLError err))
      | Inr output \<Rightarrow>
          ([Output [''git'', ''remote'', ''get-url'', ''origin'']],
           parseGitHubRepo (url_Parse w) (TrimSpace output)))"

subsection \<open>findPRForBranch\<close>

text \<open>\<open>strings.SplitN(s, "/", 2)\<close>: one part when there is no slash, two otherwise.\<close>

definition SplitN2 :: "string \<Rightarrow> string list" where
  "SplitN2 s =
     (if CHR ''/'' \<in> set s
      then [takeWhile (\<lambda>c. c \<noteq> CHR ''/'') s, tl (dropWhile (\<lambda>c. c \<noteq> CHR ''/'') s)]
      else [s])"

definition apiRequest :: "string \<Rightarrow> string \<Rightarrow> Request" where
  "apiRequest apiURL token =
     \<lparr>req_Method = ''GET'', req_URL = apiURL,
      req_Header = [(''Accept'', ''application/vnd.github+json''),
                    (''Authorization'', ''Bearer '' @ token),
                    (''X-GitHub-Api-Version'', ''2022-11-28'')]\<rparr>"

text \<open>The part of \<open>findPRForBranch\<close> after the response body has been decoded.\<close>

definition firstPR :: "prItem list \<Rightarrow> PullRequest option" where
  "firstPR prs =
     (case prs of
        [] \<Rightarrow> None
      | p # ps \<Rightarrow>
          Some \<lparr>Number = item_Number p, State = item_State p,
                MergedAt = item_MergedAt p, HeadRefName = item_Head_Ref p\<rparr>)"

text \<open>The part of \<open>findPRForBranch\<close> after the request has been built.\<close>

definition doRequest :: "world \<Rightarrow> Request \<Rightarrow> event list \<times> (error + PullRequest option)" where
  "doRequest w req =
     (case http_Do w req of
        Inl err \<Rightarrow> ([Do req], Inl err)
      | Inr resp \<Rightarrow>
          if StatusCode resp \<noteq> 200
          then ([Do req], Inl (APIError (Status resp) (fst (Body resp))))
          else (case snd (Body resp) of
                  Some err \<Rightarrow> ([Do req], Inl err)
                | None \<Rightarrow>
                    (case json_Unmarshal w (fst (Body resp)) of
                       Inl err \<Rightarrow> ([Do req], Inl err)
                     | Inr prs \<Rightarrow> ([Do req], Inr (firstPR prs)))))"

definition findPRForBranch ::
  "world \<Rightarrow> string \<Rightarrow> string \<Rightarrow> string \<Rightarrow> event list \<times> (error + PullRequest option)" where
  "findPRForBranch w repo branch token =
     (let parts = SplitN2 repo
      in if length parts \<noteq> 2 then ([], Inl (RepoFormatError repo))
         else
           (let owner = hd parts;
                apiURL = ''https://api.github.com/repos/'' @ repo @ ''/pulls?head='' @ owner
                           @ '':'' @ branch @ ''&state=all&per_page=1''
            in case http_NewRequest w ''GET'' apiURL of
                 Some err \<Rightarrow> ([], Inl err)
               | None \<Rightarrow> doRequest w (apiRequest apiURL token)))"

subsection \<open>deleteBranch\<close>

definition deleteBranch :: "world \<Rightarrow> string \<Rightarrow> event list \<times> error option" where
  "deleteBranch w branch =
     ([Run [''git'', ''branch'', ''-D'', branch]], exec_Run w [''git'', ''branch'', ''-D'', branch])"

subsection \<open>main\<close>

text \<open>
  The loop over the arguments: \<open>None\<close> when a help flag was met (the usage is printed and
  the process exits with status 0), the value of \<open>dryRun\<close> otherwise.
\<close>

fun parseArgs :: "bool \<Rightarrow> string list \<Rightarrow> bool option" where
  "parseArgs dryRun [] = Some dryRun"
| "parseArgs dryRun (arg # rest) =
     (if arg = ''--help'' \<or> arg = ''-h'' then None
      else parseArgs (if arg = ''--dry-run'' \<or> arg = ''-n'' then True else dryRun) rest)"

definition usage :: "event list" where
  "usage =
     [Print (Line ''Usage: git-tidy [--dry-run|-n]''),
      Print (Line ''''),
      Print (Line ''Deletes local branches whose PRs have been merged.''),
      Print (Line ''''),
      Print (Line ''Options:''),
      Print (Line ''  --dry-run, -n  Show what would be deleted without deleting'')]"

text \<open>
  The loop that classifies the branches: the events of the loop and the slice \<open>toDelete\<close>
  when it ends.
\<close>

fun checkBranches ::
  "world \<Rightarrow> string \<Rightarrow> string \<Rightarrow> string list \<Rightarrow> string list \<Rightarrow> event list \<times> string list" where
  "checkBranches w repo token toDelete [] = ([], toDelete)"
| "checkBranches w repo token toDelete (branch # rest) =
     (case findPRForBranch w repo branch token of
        (ev, Inl err) \<Rightarrow>
          (ev @ [Print (ErrorCheckingPR branch err)]
              @ fst (checkBranches w repo token toDelete rest),
           snd (checkBranches w repo token toDelete rest))
      | (ev, Inr None) \<Rightarrow>
          (ev @ [Print (NoPRFound branch)] @ fst (checkBranches w repo token toDelete rest),
           snd (checkBranches w repo token toDelete rest))
      | (ev, Inr (Some pr)) \<Rightarrow>
          if MergedAt pr \<noteq> ''''
          then (ev @ [Print (PRMerged branch (Number pr))]
                  @ fst (checkBranches w repo token (toDelete @ [branch]) rest),
                snd (checkBranches w repo token (toDelete @ [branch]) rest))
          else (ev @ [Print (PRNotMerged branch (Number pr) (State pr))]
                  @ fst (checkBranches w repo token toDelete rest),
                snd (checkBranches w repo token toDelete rest)))"

text \<open>The loop over \<open>toDelete\<close>.\<close>

fun deleteBranches :: "world \<Rightarrow> bool \<Rightarrow> string list \<Rightarrow> event list" where
  "deleteBranches w dryRun [] = []"
| "deleteBranches w dryRun (branch # rest) =
     (if dryRun then Print (WouldDelete branch) # deleteBranches w dryRun rest
      else (case deleteBranch w branch of
              (ev, Some err) \<Rightarrow> ev @ [Print (ErrorDeleting branch err)] @ deleteBranches w dryRun rest
            | (ev, None) \<Rightarrow> ev @ [Print (Deleted branch)] @ deleteBranches w dryRun rest))"

text \<open>The part of \<open>main\<close> after the token and the repository name are known.\<close>

definition reconcile :: "world \<Rightarrow> bool \<Rightarrow> string \<Rightarrow> string \<Rightarrow> string list \<Rightarrow> event list \<times> nat" where
  "reconcile w dryRun repo token branches =
     (case checkBranches w repo token [] branches of
        (ev, toDelete) \<Rightarrow>
          if length toDelete = 0
          then (ev @ [Print (Line (CHR 0x0A # ''No branches to delete''))], 0)
          else (ev @ [Print (BranchesToDelete (length toDelete))]
                  @ deleteBranches w dryRun toDelete, 0))"

text \<open>The part of \<open>main\<close> after the loop over the arguments.\<close>

definition tidy :: "world \<Rightarrow> bool \<Rightarrow> event list \<times> nat" where
  "tidy w dryRun =
     (case getLocalBranches w of
        (ev1, branches, Some err) \<Rightarrow> (ev1 @ [PrintErr (ErrorGettingBranches err)], 1)
      | (ev1, branches, None) \<Rightarrow>
          if length branches = 0
          then (ev1 @ [Print (Line ''No branches to check (only main exists)'')], 0)
          else
            (case getGitHubToken w of
               (ev2, Inl err) \<Rightarrow>
                 (ev1 @ [Print (FoundBranches (length branches))] @ ev2
                    @ [PrintErr (ErrorGettingToken err)], 1)
             | (ev2, Inr token) \<Rightarrow>
                 (case getRepoName w of
                    (ev3, Inl err) \<Rightarrow>
                      (ev1 @ [Print (FoundBranches (length branches))] @ ev2 @ ev3
                         @ [PrintErr (ErrorGettingRepo err)], 1)
                  | (ev3, Inr repo) \<Rightarrow>
                      (ev1 @ [Print (FoundBranches (length branches))] @ ev2 @ ev3
                         @ fst (reconcile w dryRun repo token branches),
                       snd (reconcile w dryRun repo token branches)))))"

text \<open>A run of the program: its events and its exit status.\<close>

definition main :: "world \<Rightarrow> event list \<times> nat" where
  "main w =
     (case parseArgs False (os_Args w) of
        None \<Rightarrow> (usage, 0)
      | Some dryRun \<Rightarrow> tidy w dryRun)"

section \<open>Properties stated by the specification\<close>

subsection \<open>Credential sources\<close>

text \<open>
  The specification describes credential resolution as an ordered list of probes, evaluated
  until one yields a token. A probe finds a non-empty token, finds nothing, or ends the
  resolution with an error.
\<close>

datatype probe = Found string | Nothing | Fatal error

fun resolve :: "probe list \<Rightarrow> error + string" where
  "resolve [] = Inl NoTokenError"
| "resolve (Found token # ps) = Inr token"
| "resolve (Nothing # ps) = resolve ps"
| "resolve (Fatal err # ps) = Inl err"

definition envProbe :: "world \<Rightarrow> string \<Rightarrow> probe" where
  "envProbe w name = (if os_Getenv w name \<noteq> '''' then Found (os_Getenv w name) else Nothing)"

text \<open>The path of the gh configuration file.\<close>

definition hostsFile :: "world \<Rightarrow> error + string" where
  "hostsFile w =
     (case snd (configDir w) of
        Inl err \<Rightarrow> Inl err
      | Inr dir \<Rightarrow> Inr (filepath_Join w [dir, ''hosts.yml'']))"

definition configFileProbe :: "world \<Rightarrow> probe" where
  "configFileProbe w =
     (case hostsFile w of
        Inl err \<Rightarrow> Fatal err
      | Inr file \<Rightarrow>
          (case os_ReadFile w file of
             Inl err \<Rightarrow> Fatal (ReadConfigError file err)
           | Inr data \<Rightarrow>
               (case yaml_Unmarshal w data of
                  Inl err \<Rightarrow> Fatal (ParseConfigError err)
                | Inr hosts \<Rightarrow>
                    (case hosts ''github.com'' of
                       None \<Rightarrow> Nothing
                     | Some hostConfig \<Rightarrow>
                         if OAuthToken hostConfig \<noteq> '''' then Found (OAuthToken hostConfig)
                         else Nothing))))"

definition keyringProbe :: "world \<Rightarrow> probe" where
  "keyringProbe w =
     (case keyring_Get w ''gh:github.com'' '''' of
        Inl err \<Rightarrow> Nothing
      | Inr token \<Rightarrow> if token \<noteq> '''' then Found token else Nothing)"

subsection \<open>Repository identifiers\<close>



subsection \<open>Lines\<close>

text \<open>
  The lines of a text, as \<open>strings.Split(s, "\n")\<close> gives them, and the lines that a
  listing reports: what follows the last newline is a line only when it is not empty.
\<close>

primrec splitLines :: "string \<Rightarrow> string list" where
  "splitLines [] = [[]]"
| "splitLines (c # cs) =
     (if c = CHR 0x0A then [] # splitLines cs
      else (case splitLines cs of [] \<Rightarrow> [[c]] | l # ls \<Rightarrow> (c # l) # ls))"

definition reportedLines :: "string \<Rightarrow> string list" where
  "reportedLines s =
     (if last (splitLines s) = [] then butlast (splitLines s) else splitLines s)"

text \<open>
  A line that the scanner cannot hold: the default buffer of \<open>bufio.Scanner\<close> grows to
  65536 bytes (\<open>bufio.MaxScanTokenSize\<close>), and a line fits when it has fewer.
\<close>

definition tooLong :: "string \<Rightarrow> bool" where
  "tooLong l = (65536 \<le> length l)"

text \<open>A string that neither starts nor ends with a white space rune.\<close>

definition trimmed :: "string \<Rightarrow> bool" where
  "trimmed s =
     (leadingSpace spaceRunes s = 0 \<and> leadingSpace (map rev spaceRunes) (rev s) = 0)"

subsection \<open>Verdicts\<close>

text \<open>The four verdicts of the specification, as a function of the result of the lookup.\<close>

datatype verdict = LookupFailed | NoPR | NotMerged | Merged

definition classify :: "error + PullRequest option \<Rightarrow> verdict" where
  "classify r =
     (case r of
        Inl err \<Rightarrow> LookupFailed
      | Inr None \<Rightarrow> NoPR
      | Inr (Some pr) \<Rightarrow> if MergedAt pr \<noteq> '''' then Merged else NotMerged)"

subsection \<open>Fatal steps\<close>

text \<open>The three steps whose failure ends the run, as results of the functions of main.go.\<close>

definition discoveryFails :: "world \<Rightarrow> bool" where
  "discoveryFails w = (snd (snd (getLocalBranches w)) \<noteq> None)"

definition credentialFails :: "world \<Rightarrow> bool" where
  "credentialFails w = isl (snd (getGitHubToken w))"

definition repoNameFails :: "world \<Rightarrow> bool" where
  "repoNameFails w = isl (snd (getRepoName w))"

subsection \<open>Flags\<close>

definition helpFlag :: "string list \<Rightarrow> bool" where
  "helpFlag args = (''--help'' \<in> set args \<or> ''-h'' \<in> set args)"

definition dryRunFlag :: "string list \<Rightarrow> bool" where
  "dryRunFlag args = (''--dry-run'' \<in> set args \<or> ''-n'' \<in> set args)"

definition recognized :: "string \<Rightarrow> bool" where
  "recognized arg = (arg = ''--dry-run'' \<or> arg = ''-n'' \<or> arg = ''--help'' \<or> arg = ''-h'')"

subsection \<open>The head ref of a response\<close>

text \<open>Two decoded responses that differ at most in the head ref of the first pull request.\<close>

fun sameButHeadRef :: "prItem list \<Rightarrow> prItem list \<Rightarrow> bool" where
  "sameButHeadRef [] [] = True"
| "sameButHeadRef (p # ps) (q # qs) =
     (item_Number p = item_Number q \<and> item_State p = item_State q
      \<and> item_MergedAt p = item_MergedAt q \<and> ps = qs)"
| "sameButHeadRef ps qs = False"

text \<open>
  Two answers to a request that are equal, or are both successful lookup responses (status
  200, body read without error, body decoded) whose decoded bodies differ at most in the
  head ref of the first pull request.
\<close>

definition sameButHeadRefResponse :: "world \<Rightarrow> error + Response \<Rightarrow> error + Response \<Rightarrow> bool" where
  "sameButHeadRefResponse w a b =
     (a = b \<or>
      (case (a, b) of
         (Inr r1, Inr r2) \<Rightarrow>
           StatusCode r1 = 200 \<and> StatusCode r2 = 200
           \<and> snd (Body r1) = None \<and> snd (Body r2) = None
           \<and> (case (json_Unmarshal w (fst (Body r1)), json_Unmarshal w (fst (Body r2))) of
                (Inr prs1, Inr prs2) \<Rightarrow> sameButHeadRef prs1 prs2
              | _ \<Rightarrow> False)
       | _ \<Rightarrow> False))"

text \<open>
  Two results of a lookup that are equal, or are both a pull request and differ at most in
  the name of the head ref.
\<close>

fun sameButHeadRefName ::
  "error + PullRequest option \<Rightarrow> error + PullRequest option \<Rightarrow> bool" where
  "sameButHeadRefName (Inr (Some p)) (Inr (Some q)) =
     (Number p = Number q \<and> State p = State q \<and> MergedAt p = MergedAt q)"
| "sameButHeadRefName a b = (a = b)"

section \<open>Sample worlds\<close>

text \<open>
  The end-to-end scenario of the specification: the local branches are feature/a,
  feature/b and main; the pull request of feature/a, number 10, is merged; feature/b has
  no pull request. The remote is an SSH URL, the gh configuration file holds no token and
  the keyring holds one. \<open>joinSlash\<close> is \<open>filepath.Join\<close> on clean Unix path elements, and
  the sample URL parser knows one HTTPS URL.
\<close>

fun joinSlash :: "string list \<Rightarrow> string" where
  "joinSlash [] = ''''"
| "joinSlash [p] = p"
| "joinSlash (p # q # ps) = p @ ''/'' @ joinSlash (q # ps)"

definition sampleListing :: string where
  "sampleListing = ''feature/a'' @ [CHR 0x0A] @ ''feature/b'' @ [CHR 0x0A] @ ''main'' @ [CHR 0x0A]"

definition sampleRemote :: string where
  "sampleRemote = ''git@github.com:owner/repo.git'' @ [CHR 0x0A]"

definition sampleOutput :: "string list \<Rightarrow> error + string" where
  "sampleOutput cmd =
     (if cmd = [''git'', ''branch'', ''--format=%(refname:short)''] then Inr sampleListing
      else if cmd = [''git'', ''remote'', ''get-url'', ''origin''] then Inr sampleRemote
      else Inl (ExternalError ''exit status 1''))"

definition sampleParse :: "string \<Rightarrow> error + URL" where
  "sampleParse s =
     (if s = ''https://github.com/owner/repo.git''
      then Inr \<lparr>Host = ''github.com'', Path = ''/owner/repo.git''\<rparr>
      else Inl (ExternalError ''parse error''))"

definition sampleDo :: "Request \<Rightarrow> error + Response" where
  "sampleDo req =
     (if req_URL req
           = ''https://api.github.com/repos/owner/repo/pulls?head=owner:feature/a&state=all&per_page=1''
      then Inr \<lparr>StatusCode = 200, Status = ''200 OK'', Body = (''[pr10]'', None)\<rparr>
      else Inr \<lparr>StatusCode = 200, Status = ''200 OK'', Body = (''[]'', None)\<rparr>)"

definition sampleDecode :: "string \<Rightarrow> error + prItem list" where
  "sampleDecode body =
     (if body = ''[pr10]''
      then Inr [\<lparr>item_Number = 10, item_State = ''closed'',
                 item_MergedAt = ''2024-05-01T10:00:00Z'', item_Head_Ref = ''feature/a''\<rparr>]
      else if body = ''[pr10x]''
      then Inr [\<lparr>item_Number = 10, item_State = ''closed'',
                 item_MergedAt = ''2024-05-01T10:00:00Z'', item_Head_Ref = ''elsewhere''\<rparr>]
      else Inr [])"

definition sampleWorld :: world where
  "sampleWorld =
     \<lparr>os_Args = [],
      os_Getenv = (\<lambda>name. if name = ''GH_CONFIG_DIR'' then ''/home/dev/.config/gh'' else ''''),
      runtime_GOOS = ''linux'',
      os_UserHomeDir = Inr ''/home/dev'',
      filepath_Join = joinSlash,
      os_ReadFile = (\<lambda>file. Inr ''github.com: {user: dev}''),
      yaml_Unmarshal = (\<lambda>data. Inr [''github.com'' \<mapsto> \<lparr>OAuthToken = ''''\<rparr>]),
      keyring_Get = (\<lambda>service user. Inr ''gho_keyring''),
      exec_Output = sampleOutput,
      exec_Run = (\<lambda>cmd. None),
      url_Parse = sampleParse,
      http_NewRequest = (\<lambda>method u. None),
      http_Do = sampleDo,
      json_Unmarshal = sampleDecode\<rparr>"

text \<open>The request of the sample world for a branch.\<close>

definition sampleRequest :: "string \<Rightarrow> Request" where
  "sampleRequest branch =
     apiRequest (''https://api.github.com/repos/owner/repo/pulls?head=owner:'' @ branch
                   @ ''&state=all&per_page=1'') ''gho_keyring''"

text \<open>
  Variations: the sample world with the flag \<^verbatim>\<open>--dry-run\<close>; with a gh configuration file
  that cannot be read; with another head ref in the response for feature/a; a repository
  with the branch main only, no origin remote and no token anywhere.
\<close>

definition dryRunWorld :: world where
  "dryRunWorld = sampleWorld\<lparr>os_Args := [''--dry-run'']\<rparr>"

definition unreadableWorld :: world where
  "unreadableWorld =
     sampleWorld\<lparr>os_ReadFile := (\<lambda>file. Inl (ExternalError ''no such file or directory''))\<rparr>"

definition otherHeadDo :: "Request \<Rightarrow> error + Response" where
  "otherHeadDo req =
     (if req_URL req
           = ''https://api.github.com/repos/owner/repo/pulls?head=owner:feature/a&state=all&per_page=1''
      then Inr \<lparr>StatusCode = 200, Status = ''200 OK'', Body = (''[pr10x]'', None)\<rparr>
      else Inr \<lparr>StatusCode = 200, Status = ''200 OK'', Body = (''[]'', None)\<rparr>)"

definition bareListing :: string where
  "bareListing = ''main'' @ [CHR 0x0A]"

definition bareWorld :: world where
  "bareWorld =
     sampleWorld
       \<lparr>os_ReadFile := (\<lambda>file. Inl (ExternalError ''no such file or directory'')),
        keyring_Get := (\<lambda>service user. Inl (ExternalError ''secret not found in keyring'')),
        exec_Output := (\<lambda>cmd. if cmd = [''git'', ''branch'', ''--format=%(refname:short)'']
                               then Inr bareListing
                               else Inl (ExternalError ''exit status 2''))\<rparr>"

text \<open>A listing with white space, carriage returns, an empty line and no final newline.\<close>

definition messyListing :: string where
  "messyListing = ''  feature/a  '' @ [CHR 0x0D, CHR 0x0A] @ ''main'' @ [CHR 0x0A, CHR 0x0A]
                    @ ''master'' @ [CHR 0x0A, CHR 0x09] @ ''mainline'' @ [CHR 0x0A] @ ''fix b''"

text \<open>A listing whose second line has 65536 bytes, between two ordinary branch names.\<close>

definition longLine :: string where
  "longLine = replicate 65536 CHR ''x''"

definition longListing :: string where
  "longListing = ''feature/a'' @ [CHR 0x0A] @ longLine @ [CHR 0x0A] @ ''feature/b''"

definition longWorld :: world where
  "longWorld = sampleWorld\<lparr>exec_Output := (\<lambda>cmd. Inr longListing)\<rparr>"

section \<open>Lemmas\<close>

lemmas string_defs = HasPrefix_def HasSuffix_def TrimPrefix_def TrimSuffix_def

subsection \<open>The SSH pattern\<close>




lemma sshMatchAt_literal:
  assumes "owner \<noteq> []" "CHR ''/'' \<notin> set owner" "repo \<noteq> []" "CHR 0x0A \<notin> set repo"
  shows "sshMatchAt (''git@github.com:'' @ owner @ ''/'' @ repo)
           = Some (owner, if 4 < length repo \<and> HasSuffix repo ''.git''
                          then take (length repo - 4) repo else repo)"
proof -
  have t: "takeWhile (\<lambda>c. c \<noteq> CHR ''/'') (owner @ CHR ''/'' # repo) = owner"
    using assms(2) by (induction owner) auto
  have d: "dropWhile (\<lambda>c. c \<noteq> CHR ''/'') (owner @ CHR ''/'' # repo) = CHR ''/'' # repo"
    using assms(2) by (induction owner) auto
  show ?thesis
    using assms(1,3,4) by (simp add: sshMatchAt_def HasPrefix_def t d)
qed

text \<open>
  What the SSH rule returns for a URL that is the literal prefix, an owner, a slash and a
  path: one \<^verbatim>\<open>.git\<close> is left out by the pattern and another one is stripped after it.
\<close>

lemma parseGitHubRepo_ssh_form:
  assumes "owner \<noteq> []" "CHR ''/'' \<notin> set owner" "repo \<noteq> []" "CHR 0x0A \<notin> set repo"
  shows "parseGitHubRepo p (''git@github.com:'' @ owner @ ''/'' @ repo)
           = Inr (owner @ ''/'' @
                    TrimSuffix (if 4 < length repo \<and> HasSuffix repo ''.git''
                                then take (length repo - 4) repo else repo) ''.git'')"
proof -
  have "FindStringSubmatch (''git@github.com:'' @ owner @ ''/'' @ repo)
          = sshMatchAt (''git@github.com:'' @ owner @ ''/'' @ repo)"
    using sshMatchAt_literal[OF assms] by simp
  then show ?thesis
    using sshMatchAt_literal[OF assms] by (simp add: parseGitHubRepo_def)
qed

text \<open>Where the name does not end in \<^verbatim>\<open>.git\<close>, the URL with or without the suffix gives owner/name.\<close>

lemma parseGitHubRepo_ssh_plain:
  assumes "owner \<noteq> []" "CHR ''/'' \<notin> set owner" "name \<noteq> []" "CHR 0x0A \<notin> set name"
    and "\<not> HasSuffix name ''.git''"
  shows "parseGitHubRepo p (''git@github.com:'' @ owner @ ''/'' @ name) = Inr (owner @ ''/'' @ name)"
    and "parseGitHubRepo p (''git@github.com:'' @ owner @ ''/'' @ name @ ''.git'')
           = Inr (owner @ ''/'' @ name)"
proof -
  show "parseGitHubRepo p (''git@github.com:'' @ owner @ ''/'' @ name) = Inr (owner @ ''/'' @ name)"
    using parseGitHubRepo_ssh_form[OF assms(1-4), of p] assms(5)
    by (simp add: TrimSuffix_def)
  have n: "name @ ''.git'' \<noteq> []" "CHR 0x0A \<notin> set (name @ ''.git'')"
    using assms(4) by simp_all
  have s: "HasSuffix (name @ ''.git'') ''.git''" "4 < length (name @ ''.git'')"
    using assms(3) by (simp_all add: HasSuffix_def)
  show "parseGitHubRepo p (''git@github.com:'' @ owner @ ''/'' @ name @ ''.git'')
           = Inr (owner @ ''/'' @ name)"
    using parseGitHubRepo_ssh_form[OF assms(1,2) n, of p] s assms(5)
    by (simp add: TrimSuffix_def)
qed

text \<open>The URL rule strips one \<^verbatim>\<open>.git\<close> only.\<close>

lemma parseGitHubRepo_url_strips_once:
  assumes "FindStringSubmatch s = None"
    and "p s = Inr \<lparr>Host = ''github.com'', Path = ''/owner/name.git.git''\<rparr>"
  shows "parseGitHubRepo p s = Inr ''owner/name.git''"
  using assms by (simp add: parseGitHubRepo_def string_defs)

subsection \<open>Credentials\<close>

lemma keyringToken_probe:
  "snd (keyringToken w) = resolve [keyringProbe w]"
  "fst (keyringToken w) = [KeyringGet ''gh:github.com'' '''']"
  by (auto simp: keyringToken_def keyringProbe_def split: sum.splits)

lemma configDir_no_keyring: "KeyringGet a b \<notin> set (fst (configDir w))"
  by (auto simp: configDir_def split: sum.splits)

subsection \<open>The fields of the world that a function reads\<close>

lemma parseArgs_flags:
  "parseArgs dryRun args = (if helpFlag args then None else Some (dryRun \<or> dryRunFlag args))"
  by (induction args arbitrary: dryRun) (auto simp: helpFlag_def dryRunFlag_def)

lemma getLocalBranches_cong:
  assumes "exec_Output w' = exec_Output w"
  shows "getLocalBranches w' = getLocalBranches w"
  unfolding getLocalBranches_def assms by (rule refl)

lemma configDir_cong:
  assumes "os_Getenv w' = os_Getenv w" "runtime_GOOS w' = runtime_GOOS w"
    "os_UserHomeDir w' = os_UserHomeDir w" "filepath_Join w' = filepath_Join w"
  shows "configDir w' = configDir w"
  unfolding configDir_def assms by (rule refl)

lemma keyringToken_cong:
  assumes "keyring_Get w' = keyring_Get w"
  shows "keyringToken w' = keyringToken w"
  unfolding keyringToken_def assms by (rule refl)

lemma tokenFromHosts_cong:
  assumes "keyring_Get w' = keyring_Get w"
  shows "tokenFromHosts w' hosts = tokenFromHosts w hosts"
  unfolding tokenFromHosts_def keyringToken_cong[OF assms] by (rule refl)

lemma getGitHubToken_cong:
  assumes "os_Getenv w' = os_Getenv w" "runtime_GOOS w' = runtime_GOOS w"
    "os_UserHomeDir w' = os_UserHomeDir w" "filepath_Join w' = filepath_Join w"
    "os_ReadFile w' = os_ReadFile w" "yaml_Unmarshal w' = yaml_Unmarshal w"
    "keyring_Get w' = keyring_Get w"
  shows "getGitHubToken w' = getGitHubToken w"
  unfolding getGitHubToken_def configDir_cong[OF assms(1-4)] tokenFromHosts_cong[OF assms(7)]
    assms(1,4,5,6)
  by (rule refl)

lemma getRepoName_cong:
  assumes "exec_Output w' = exec_Output w" "url_Parse w' = url_Parse w"
  shows "getRepoName w' = getRepoName w"
  unfolding getRepoName_def assms by (rule refl)

lemma findPRForBranch_cong:
  assumes "http_NewRequest w' = http_NewRequest w" "http_Do w' = http_Do w"
    "json_Unmarshal w' = json_Unmarshal w"
  shows "findPRForBranch w' repo branch token = findPRForBranch w repo branch token"
  unfolding findPRForBranch_def doRequest_def assms by (rule refl)

lemma checkBranches_cong:
  assumes "\<And>branch. findPRForBranch w' repo branch token = findPRForBranch w repo branch token"
  shows "checkBranches w' repo token toDelete branches
           = checkBranches w repo token toDelete branches"
proof (induction branches arbitrary: toDelete)
  case Nil
  show ?case by simp
next
  case (Cons b bs)
  show ?case
    unfolding checkBranches.simps assms Cons.IH by (rule refl)
qed

lemma deleteBranches_cong:
  assumes "exec_Run w' = exec_Run w"
  shows "deleteBranches w' dryRun toDelete = deleteBranches w dryRun toDelete"
proof (induction toDelete)
  case Nil
  show ?case by simp
next
  case (Cons b bs)
  show ?case
    unfolding deleteBranches.simps deleteBranch_def assms Cons.IH by (rule refl)
qed

lemma reconcile_cong:
  assumes "\<And>branch. findPRForBranch w' repo branch token = findPRForBranch w repo branch token"
    and "exec_Run w' = exec_Run w"
  shows "reconcile w' dryRun repo token branches = reconcile w dryRun repo token branches"
  unfolding reconcile_def checkBranches_cong[of w' repo token w, OF assms(1)]
    deleteBranches_cong[OF assms(2)]
  by (rule refl)

text \<open>A run reads the world through the functions above and the arguments.\<close>

lemma tidy_cong:
  assumes "getLocalBranches w' = getLocalBranches w"
    and "getGitHubToken w' = getGitHubToken w"
    and "getRepoName w' = getRepoName w"
    and "\<And>repo branch token.
           findPRForBranch w' repo branch token = findPRForBranch w repo branch token"
    and "exec_Run w' = exec_Run w"
  shows "tidy w' dryRun = tidy w dryRun"
  unfolding tidy_def assms(1-3) reconcile_cong[of w' _ _ w, OF assms(4) assms(5)]
  by (rule refl)

lemma tidy_args: "tidy (w\<lparr>os_Args := a\<rparr>) dryRun = tidy w dryRun"
proof (rule tidy_cong)
  show "getLocalBranches (w\<lparr>os_Args := a\<rparr>) = getLocalBranches w"
    by (rule getLocalBranches_cong) simp
  show "getGitHubToken (w\<lparr>os_Args := a\<rparr>) = getGitHubToken w"
    by (rule getGitHubToken_cong) simp_all
  show "getRepoName (w\<lparr>os_Args := a\<rparr>) = getRepoName w"
    by (rule getRepoName_cong) simp_all
  show "findPRForBranch (w\<lparr>os_Args := a\<rparr>) repo branch token
          = findPRForBranch w repo branch token" for repo branch token
    by (rule findPRForBranch_cong) simp_all
  show "exec_Run (w\<lparr>os_Args := a\<rparr>) = exec_Run w"
    by simp
qed

lemma main_flags:
  "main w = (if helpFlag (os_Args w) then (usage, 0) else tidy w (dryRunFlag (os_Args w)))"
  by (simp add: main_def parseArgs_flags)

subsection \<open>The shape of a run\<close>

lemma deleteBranches_dry:
  "deleteBranches w True toDelete = map (\<lambda>b. Print (WouldDelete b)) toDelete"
  by (induction toDelete) simp_all

lemma findPRForBranch_no_Run: "Run cmd \<notin> set (fst (findPRForBranch w repo branch token))"
  by (auto simp: findPRForBranch_def doRequest_def Let_def split: option.splits sum.splits)

lemma checkBranches_no_Run:
  "Run cmd \<notin> set (fst (checkBranches w repo token toDelete branches))"
proof (induction branches arbitrary: toDelete)
  case Nil
  show ?case by simp
next
  case (Cons b bs)
  obtain ev r where f: "findPRForBranch w repo b token = (ev, r)"
    by (cases "findPRForBranch w repo b token")
  have "Run cmd \<notin> set ev"
    using findPRForBranch_no_Run[of cmd w repo b token] f by simp
  then show ?case
    using Cons.IH by (auto simp: f split: sum.splits option.splits)
qed

lemma getLocalBranches_no_Run: "Run cmd \<notin> set (fst (getLocalBranches w))"
  by (auto simp: getLocalBranches_def split: sum.splits)

lemma configDir_no_Run: "Run cmd \<notin> set (fst (configDir w))"
  by (auto simp: configDir_def split: sum.splits)

lemma tokenFromHosts_no_Run: "Run cmd \<notin> set (fst (tokenFromHosts w hosts))"
  by (simp add: tokenFromHosts_def keyringToken_probe split: option.splits)

lemma getGitHubToken_no_Run: "Run cmd \<notin> set (fst (getGitHubToken w))"
proof -
  obtain ev r where cd: "configDir w = (ev, r)" by (cases "configDir w")
  have "Run cmd \<notin> set ev"
    using configDir_no_Run[of cmd w] cd by simp
  then show ?thesis
    using tokenFromHosts_no_Run[of cmd w]
    by (auto simp: getGitHubToken_def cd split: sum.splits)
qed

lemma getRepoName_no_Run: "Run cmd \<notin> set (fst (getRepoName w))"
  by (auto simp: getRepoName_def split: sum.splits)

text \<open>
  The shape of a run without a help flag: events that do not depend on the dry-run flag and
  hold no subprocess started with \<open>Run\<close>, then the loop over the delete set.
\<close>

lemma reconcile_shape:
  "\<exists>pre toDelete.
     (\<forall>cmd. Run cmd \<notin> set pre)
     \<and> (\<forall>dryRun. reconcile w dryRun repo token branches
                    = (pre @ deleteBranches w dryRun toDelete, 0))"
proof -
  obtain ev td where c: "checkBranches w repo token [] branches = (ev, td)"
    by (cases "checkBranches w repo token [] branches")
  have nr: "\<forall>cmd. Run cmd \<notin> set ev"
    using checkBranches_no_Run[of _ w repo token "[]" branches] c by simp
  show ?thesis
  proof (cases "td = []")
    case True
    have "\<forall>dryRun. reconcile w dryRun repo token branches
            = ((ev @ [Print (Line (CHR 0x0A # ''No branches to delete''))])
                 @ deleteBranches w dryRun [], 0)"
      by (simp add: reconcile_def c True)
    moreover have "\<forall>cmd. Run cmd \<notin> set (ev @ [Print (Line (CHR 0x0A # ''No branches to delete''))])"
      using nr by simp
    ultimately show ?thesis by blast
  next
    case False
    have "\<forall>dryRun. reconcile w dryRun repo token branches
            = ((ev @ [Print (BranchesToDelete (length td))]) @ deleteBranches w dryRun td, 0)"
      by (simp add: reconcile_def c False)
    moreover have "\<forall>cmd. Run cmd \<notin> set (ev @ [Print (BranchesToDelete (length td))])"
      using nr by simp
    ultimately show ?thesis by blast
  qed
qed

lemma snd_reconcile: "snd (reconcile w dryRun repo token branches) = 0"
  by (simp add: reconcile_def split: prod.splits)

lemma tidy_shape:
  "\<exists>pre toDelete status.
     (\<forall>cmd. Run cmd \<notin> set pre) \<and> (status = 1 \<longrightarrow> toDelete = [])
     \<and> (\<forall>dryRun. tidy w dryRun = (pre @ deleteBranches w dryRun toDelete, status))"
proof -
  obtain ev1 branches e1 where lb: "getLocalBranches w = (ev1, branches, e1)"
    by (cases "getLocalBranches w")
  obtain ev2 r2 where tk: "getGitHubToken w = (ev2, r2)" by (cases "getGitHubToken w")
  obtain ev3 r3 where rn: "getRepoName w = (ev3, r3)" by (cases "getRepoName w")
  have n1: "\<forall>cmd. Run cmd \<notin> set ev1" using getLocalBranches_no_Run[of _ w] lb by simp
  have n2: "\<forall>cmd. Run cmd \<notin> set ev2" using getGitHubToken_no_Run[of _ w] tk by simp
  have n3: "\<forall>cmd. Run cmd \<notin> set ev3" using getRepoName_no_Run[of _ w] rn by simp
  have simple: ?thesis
    if "\<forall>cmd. Run cmd \<notin> set pre" and "\<forall>dryRun. tidy w dryRun = (pre, status)" for pre status
  proof -
    have "\<forall>dryRun. tidy w dryRun = (pre @ deleteBranches w dryRun [], status)"
      using that(2) by simp
    with that(1) show ?thesis by blast
  qed
  show ?thesis
  proof (cases e1)
    case (Some err)
    show ?thesis
      by (rule simple[of "ev1 @ [PrintErr (ErrorGettingBranches err)]" 1])
        (use n1 in \<open>simp_all add: tidy_def lb Some\<close>)
  next
    case None
    show ?thesis
    proof (cases "branches = []")
      case True
      show ?thesis
        by (rule simple[of "ev1 @ [Print (Line ''No branches to check (only main exists)'')]" 0])
          (use n1 in \<open>simp_all add: tidy_def lb None True\<close>)
    next
      case False
      show ?thesis
      proof (cases r2)
        case (Inl err)
        show ?thesis
          by (rule simple[of "ev1 @ [Print (FoundBranches (length branches))] @ ev2
                                @ [PrintErr (ErrorGettingToken err)]" 1])
            (use n1 n2 False in \<open>simp_all add: tidy_def lb None tk Inl\<close>)
      next
        case (Inr token)
        note tokenOK = this
        show ?thesis
        proof (cases r3)
          case (Inl err)
          show ?thesis
            by (rule simple[of "ev1 @ [Print (FoundBranches (length branches))] @ ev2 @ ev3
                                  @ [PrintErr (ErrorGettingRepo err)]" 1])
              (use n1 n2 n3 False in \<open>simp_all add: tidy_def lb None tk tokenOK rn Inl\<close>)
        next
          case (Inr repo)
          from reconcile_shape[of w repo token branches]
          obtain pre td where p: "\<forall>cmd. Run cmd \<notin> set pre"
            and r: "\<forall>dryRun. reconcile w dryRun repo token branches
                      = (pre @ deleteBranches w dryRun td, 0)"
            by blast
          have "\<forall>dryRun. tidy w dryRun
                  = ((ev1 @ [Print (FoundBranches (length branches))] @ ev2 @ ev3 @ pre)
                       @ deleteBranches w dryRun td, 0)"
            using False by (simp add: tidy_def lb None tk tokenOK rn Inr r)
          moreover have "\<forall>cmd. Run cmd \<notin> set (ev1 @ [Print (FoundBranches (length branches))]
                                                  @ ev2 @ ev3 @ pre)"
            using n1 n2 n3 p by simp
          ultimately show ?thesis by (metis zero_neq_one)
        qed
      qed
    qed
  qed
qed

lemma usage_no_Run: "Run cmd \<notin> set usage"
  by (simp add: usage_def)

subsection \<open>The scanner and the lines of a text\<close>

lemma splitLines_nonempty: "splitLines s \<noteq> []"
  by (induction s) (auto split: list.splits)

lemma splitLines_no_newline:
  "CHR 0x0A \<notin> set s \<Longrightarrow> splitLines s = [s]"
  by (induction s) auto

lemma splitLines_newline:
  "CHR 0x0A \<notin> set l \<Longrightarrow> splitLines (l @ CHR 0x0A # rest) = l # splitLines rest"
  by (induction l) auto

lemma split_at_newline:
  "CHR 0x0A \<in> set s \<Longrightarrow>
     s = takeWhile (\<lambda>c. c \<noteq> CHR 0x0A) s @ CHR 0x0A
           # drop (Suc (length (takeWhile (\<lambda>c. c \<noteq> CHR 0x0A) s))) s"
  by (induction s) auto

lemma takeWhile_no_newline: "CHR 0x0A \<notin> set (takeWhile (\<lambda>c. c \<noteq> CHR 0x0A) s)"
  by (induction s) auto

lemma reportedLines_newline:
  "CHR 0x0A \<notin> set l \<Longrightarrow> reportedLines (l @ CHR 0x0A # rest) = l # reportedLines rest"
  using splitLines_nonempty[of rest]
  by (simp add: reportedLines_def splitLines_newline)

lemma scanLines_Nil: "scanLines [] = ([], None)"
  by (simp add: scanLines.simps)

lemma scanLines_step:
  assumes "s \<noteq> []" and "\<not> 65536 \<le> length (takeWhile (\<lambda>c. c \<noteq> CHR 0x0A) s)"
  shows "scanLines s
           = (dropCR (takeWhile (\<lambda>c. c \<noteq> CHR 0x0A) s)
                # fst (scanLines (drop (Suc (length (takeWhile (\<lambda>c. c \<noteq> CHR 0x0A) s))) s)),
              snd (scanLines (drop (Suc (length (takeWhile (\<lambda>c. c \<noteq> CHR 0x0A) s))) s)))"
  using assms by (subst scanLines.simps) (simp add: case_prod_beta)

text \<open>
  Where no line has 65536 bytes or more, the scanner delivers the reported lines, each
  without its carriage return, and no error.
\<close>

lemma scanLines_reportedLines:
  "\<forall>l \<in> set (splitLines s). length l < 65536 \<Longrightarrow>
     scanLines s = (map dropCR (reportedLines s), None)"
proof (induction s rule: scanLines.induct)
  case (1 s)
  let ?line = "takeWhile (\<lambda>c. c \<noteq> CHR 0x0A) s"
  let ?rest = "drop (Suc (length ?line)) s"
  show ?case
  proof (cases "s = []")
    case True
    then show ?thesis
      by (simp add: scanLines_Nil reportedLines_def)
  next
    case False
    note nonempty = this
    show ?thesis
    proof (cases "CHR 0x0A \<in> set s")
      case False
      then have sp: "splitLines s = [s]" by (rule splitLines_no_newline)
      from False have line: "?line = s" by (induction s) auto
      from "1.prems" sp have "length s < 65536" by simp
      then have short: "\<not> 65536 \<le> length ?line" unfolding line by simp
      have "scanLines s = (dropCR ?line # fst (scanLines ?rest), snd (scanLines ?rest))"
        using nonempty short by (rule scanLines_step)
      then have "scanLines s = ([dropCR s], None)"
        unfolding line by (simp add: scanLines_Nil)
      then show ?thesis
        using nonempty by (simp add: reportedLines_def sp)
    next
      case True
      have s: "s = ?line @ CHR 0x0A # ?rest"
        using True by (rule split_at_newline)
      have sp: "splitLines s = ?line # splitLines ?rest"
        using splitLines_newline[OF takeWhile_no_newline, of s ?rest] s by simp
      with "1.prems" have short: "\<not> 65536 \<le> length ?line"
        and restshort: "\<forall>l \<in> set (splitLines ?rest). length l < 65536"
        by simp_all
      from "1.IH"[OF nonempty short restshort]
      have ih: "scanLines ?rest = (map dropCR (reportedLines ?rest), None)" .
      have rp: "reportedLines s = ?line # reportedLines ?rest"
        using reportedLines_newline[OF takeWhile_no_newline, of s ?rest] s by simp
      have "scanLines s = (dropCR ?line # fst (scanLines ?rest), snd (scanLines ?rest))"
        using nonempty short by (rule scanLines_step)
      then have "scanLines s = (dropCR ?line # map dropCR (reportedLines ?rest), None)"
        by (simp only: ih fst_conv snd_conv)
      then show ?thesis
        by (simp add: rp)
    qed
  qed
qed

lemma reportedLines_Nil: "reportedLines [] = []"
  by (simp add: reportedLines_def)

lemma reportedLines_no_newline:
  "CHR 0x0A \<notin> set s \<Longrightarrow> s \<noteq> [] \<Longrightarrow> reportedLines s = [s]"
  by (simp add: reportedLines_def splitLines_no_newline)

lemma takeWhile_whole: "CHR 0x0A \<notin> set s \<Longrightarrow> takeWhile (\<lambda>c. c \<noteq> CHR 0x0A) s = s"
  by (induction s) auto

lemma scanLines_tooLong:
  "s \<noteq> [] \<Longrightarrow> 65536 \<le> length (takeWhile (\<lambda>c. c \<noteq> CHR 0x0A) s) \<Longrightarrow>
     scanLines s = ([], Some ErrTooLong)"
  by (subst scanLines.simps) simp

text \<open>
  On every text, the scanner delivers the reported lines before the first one that is too
  long, each without its carriage return; its error is \<open>ErrTooLong\<close> when there is such a
  line and none otherwise.
\<close>

lemma scanLines_lines:
  "scanLines s
     = (map dropCR (takeWhile (\<lambda>l. \<not> tooLong l) (reportedLines s)),
        if list_ex tooLong (reportedLines s) then Some ErrTooLong else None)"
proof (induction s rule: scanLines.induct)
  case (1 s)
  let ?line = "takeWhile (\<lambda>c. c \<noteq> CHR 0x0A) s"
  let ?rest = "drop (Suc (length ?line)) s"
  show ?case
  proof (cases "s = []")
    case True
    then show ?thesis
      by (simp add: scanLines_Nil reportedLines_Nil)
  next
    case False
    note nonempty = this
    have rp: "reportedLines s = ?line # reportedLines ?rest"
    proof (cases "CHR 0x0A \<in> set s")
      case False
      then have line: "?line = s" by (rule takeWhile_whole)
      have "reportedLines s = [s]"
        using False nonempty by (rule reportedLines_no_newline)
      then show ?thesis
        unfolding line by (simp add: reportedLines_Nil)
    next
      case True
      have s: "s = ?line @ CHR 0x0A # ?rest"
        using True by (rule split_at_newline)
      show ?thesis
        using reportedLines_newline[OF takeWhile_no_newline, of s ?rest] s by simp
    qed
    show ?thesis
    proof (cases "65536 \<le> length ?line")
      case True
      then have "scanLines s = ([], Some ErrTooLong)"
        using nonempty by (simp add: scanLines_tooLong)
      then show ?thesis
        unfolding rp using True by (simp add: tooLong_def)
    next
      case False
      from "1.IH"[OF nonempty False]
      have ih: "scanLines ?rest
                  = (map dropCR (takeWhile (\<lambda>l. \<not> tooLong l) (reportedLines ?rest)),
                     if list_ex tooLong (reportedLines ?rest) then Some ErrTooLong else None)" .
      have "scanLines s = (dropCR ?line # fst (scanLines ?rest), snd (scanLines ?rest))"
        using nonempty False by (rule scanLines_step)
      moreover from False have "\<not> tooLong ?line" by (simp add: tooLong_def)
      ultimately show ?thesis
        unfolding rp ih by simp
    qed
  qed
qed

subsection \<open>Trimming white space\<close>

lemma leadingSpace_Nil: "leadingSpace rs [] = 0"
  by (induction rs) (auto simp: HasPrefix_def)

lemma leadingSpace_prefix:
  "leadingSpace rs s \<noteq> 0 \<Longrightarrow>
     take (leadingSpace rs s) s \<in> set rs \<and> leadingSpace rs s \<le> length s"
proof (induction rs)
  case Nil
  then show ?case by simp
next
  case (Cons r rs)
  show ?case
  proof (cases "r \<noteq> [] \<and> HasPrefix s r")
    case True
    then have "leadingSpace (r # rs) s = length r" by simp
    moreover from True have "take (length r) s = r" by (simp add: HasPrefix_def)
    moreover from this have "length r \<le> length s"
      by (metis length_take min.cobounded1)
    ultimately show ?thesis by simp
  next
    case False
    then have "leadingSpace (r # rs) s = leadingSpace rs s" by auto
    with Cons show ?thesis by auto
  qed
qed

text \<open>
  \<open>TrimLeftSpace\<close> removes a sequence of the given runes from the front, and what is left
  does not start with one of them.
\<close>

lemma TrimLeftSpace_suffix:
  "\<exists>ws. set ws \<subseteq> set rs \<and> s = concat ws @ TrimLeftSpace rs s"
proof (induction rs s rule: TrimLeftSpace.induct)
  case (1 rs s)
  show ?case
  proof (cases "leadingSpace rs s = 0 \<or> s = []")
    case True
    then have "TrimLeftSpace rs s = s" by (subst TrimLeftSpace.simps) simp
    then have "set [] \<subseteq> set rs \<and> s = concat [] @ TrimLeftSpace rs s" by simp
    then show ?thesis by blast
  next
    case False
    then have t: "TrimLeftSpace rs s = TrimLeftSpace rs (drop (leadingSpace rs s) s)"
      by (subst TrimLeftSpace.simps) simp
    from "1.IH"[OF False] obtain ws where
      ws: "set ws \<subseteq> set rs"
        "drop (leadingSpace rs s) s = concat ws @ TrimLeftSpace rs (drop (leadingSpace rs s) s)"
      by blast
    from False leadingSpace_prefix[of rs s] have p: "take (leadingSpace rs s) s \<in> set rs"
      by simp
    have "s = take (leadingSpace rs s) s @ drop (leadingSpace rs s) s" by simp
    with ws(2) t have "s = concat (take (leadingSpace rs s) s # ws) @ TrimLeftSpace rs s"
      by simp
    moreover have "set (take (leadingSpace rs s) s # ws) \<subseteq> set rs"
      using p ws(1) by simp
    ultimately show ?thesis by blast
  qed
qed

lemma TrimLeftSpace_done:
  "leadingSpace rs (TrimLeftSpace rs s) = 0 \<or> TrimLeftSpace rs s = []"
proof (induction rs s rule: TrimLeftSpace.induct)
  case (1 rs s)
  show ?case
  proof (cases "leadingSpace rs s = 0 \<or> s = []")
    case True
    then have "TrimLeftSpace rs s = s" by (subst TrimLeftSpace.simps) simp
    with True show ?thesis by auto
  next
    case False
    then have "TrimLeftSpace rs s = TrimLeftSpace rs (drop (leadingSpace rs s) s)"
      by (subst TrimLeftSpace.simps) simp
    with "1.IH"[OF False] show ?thesis by simp
  qed
qed

text \<open>
  \<open>TrimSpace\<close> removes white space runes from both ends, and what is left neither starts
  nor ends with a white space rune.
\<close>

lemma TrimSpace_parts:
  "\<exists>front back. set front \<subseteq> set spaceRunes \<and> set back \<subseteq> set spaceRunes
      \<and> s = concat front @ TrimSpace s @ concat back"
proof -
  from TrimLeftSpace_suffix[of spaceRunes s] obtain front where
    f: "set front \<subseteq> set spaceRunes" "s = concat front @ TrimLeftSpace spaceRunes s"
    by blast
  let ?m = "TrimLeftSpace spaceRunes s"
  from TrimLeftSpace_suffix[of "map rev spaceRunes" "rev ?m"] obtain ws where
    w: "set ws \<subseteq> set (map rev spaceRunes)"
       "rev ?m = concat ws @ TrimLeftSpace (map rev spaceRunes) (rev ?m)"
    by blast
  have "?m = rev (rev ?m)" by simp
  also have "\<dots> = rev (concat ws @ TrimLeftSpace (map rev spaceRunes) (rev ?m))"
    using w(2) by simp
  also have "\<dots> = TrimSpace s @ concat (map rev (rev ws))"
    by (simp add: TrimSpace_def rev_concat)
  finally have m: "?m = TrimSpace s @ concat (map rev (rev ws))" .
  have "set (map rev (rev ws)) \<subseteq> set spaceRunes"
    using w(1) by auto
  with f m show ?thesis by metis
qed

lemma leadingSpace_HasPrefix:
  "leadingSpace rs s = 0 \<Longrightarrow> r \<in> set rs \<Longrightarrow> r \<noteq> [] \<Longrightarrow> \<not> HasPrefix s r"
  by (induction rs) (auto split: if_splits)

lemma leadingSpace_zero:
  "(\<And>r. r \<in> set rs \<Longrightarrow> r \<noteq> [] \<Longrightarrow> \<not> HasPrefix s r) \<Longrightarrow> leadingSpace rs s = 0"
  by (induction rs) auto

lemma TrimSpace_trimmed:
  "leadingSpace spaceRunes (TrimSpace s) = 0
   \<and> leadingSpace (map rev spaceRunes) (rev (TrimSpace s)) = 0"
proof -
  let ?m = "TrimLeftSpace spaceRunes s"
  let ?t = "TrimLeftSpace (map rev spaceRunes) (rev ?m)"
  have ts: "TrimSpace s = rev ?t" by (simp add: TrimSpace_def)
  have right: "leadingSpace (map rev spaceRunes) ?t = 0"
    using TrimLeftSpace_done[of "map rev spaceRunes" "rev ?m"] by (auto simp: leadingSpace_Nil)
  from TrimLeftSpace_suffix[of "map rev spaceRunes" "rev ?m"] obtain ws where
    "rev ?m = concat ws @ ?t" by blast
  then have m: "?m = rev ?t @ rev (concat ws)"
    by (metis rev_append rev_rev_ident)
  have left0: "leadingSpace spaceRunes ?m = 0"
    using TrimLeftSpace_done[of spaceRunes s] by (auto simp: leadingSpace_Nil)
  have "leadingSpace spaceRunes (rev ?t) = 0"
  proof (rule leadingSpace_zero)
    fix r assume r: "r \<in> set spaceRunes" "r \<noteq> []"
    from leadingSpace_HasPrefix[OF left0 r] have n: "\<not> HasPrefix ?m r" .
    show "\<not> HasPrefix (rev ?t) r"
    proof
      assume "HasPrefix (rev ?t) r"
      then have "take (length r) (rev ?t) = r" by (simp add: HasPrefix_def)
      then have "length r \<le> length (rev ?t)"
        by (metis length_take min.cobounded1)
      with \<open>take (length r) (rev ?t) = r\<close> have "take (length r) ?m = r"
        by (subst m) simp
      with n show False by (simp add: HasPrefix_def)
    qed
  qed
  with right show ?thesis by (simp add: ts)
qed

lemma trimmed_TrimSpace: "trimmed (TrimSpace s)"
  using TrimSpace_trimmed[of s] by (simp add: trimmed_def)

subsection \<open>The sample run\<close>

lemmas trim_defs = TrimSpace_def TrimLeftSpace.simps spaceRunes_def HasPrefix_def

lemma sample_scan:
  "scanLines sampleListing = ([''feature/a'', ''feature/b'', ''main''], None)"
  by (simp add: sampleListing_def scanLines.simps dropCR_def)

lemma sample_collect:
  "collectBranches [] [''feature/a'', ''feature/b'', ''main''] = [''feature/a'', ''feature/b'']"
  by (simp add: trim_defs)

lemma sample_branches:
  "getLocalBranches sampleWorld
     = ([Output [''git'', ''branch'', ''--format=%(refname:short)'']],
        [''feature/a'', ''feature/b''], None)"
  by (simp add: getLocalBranches_def sampleWorld_def sampleOutput_def sample_scan sample_collect
      del: collectBranches.simps)

lemma sample_token:
  "getGitHubToken sampleWorld
     = ([Getenv ''GH_TOKEN'', Getenv ''GITHUB_TOKEN'', Getenv ''GH_CONFIG_DIR'',
         ReadFile ''/home/dev/.config/gh/hosts.yml'', KeyringGet ''gh:github.com'' ''''],
        Inr ''gho_keyring'')"
  by (simp add: getGitHubToken_def configDir_def tokenFromHosts_def keyringToken_def
      sampleWorld_def)

lemma sample_remote: "TrimSpace sampleRemote = ''git@github.com:owner/repo.git''"
  by (simp add: sampleRemote_def trim_defs)

lemma sample_parse: "parseGitHubRepo p ''git@github.com:owner/repo.git'' = Inr ''owner/repo''"
  by (simp add: parseGitHubRepo_def sshMatchAt_def string_defs)

lemma sample_repo:
  "getRepoName sampleWorld
     = ([Output [''git'', ''remote'', ''get-url'', ''origin'']], Inr ''owner/repo'')"
  by (simp add: getRepoName_def sampleWorld_def sampleOutput_def sample_remote sample_parse)

lemma sample_find_a:
  "findPRForBranch sampleWorld ''owner/repo'' ''feature/a'' ''gho_keyring''
     = ([Do (sampleRequest ''feature/a'')],
        Inr (Some \<lparr>Number = 10, State = ''closed'', MergedAt = ''2024-05-01T10:00:00Z'',
                   HeadRefName = ''feature/a''\<rparr>))"
  by (simp add: findPRForBranch_def doRequest_def SplitN2_def sampleWorld_def sampleDo_def
      sampleDecode_def apiRequest_def firstPR_def sampleRequest_def)

lemma sample_find_b:
  "findPRForBranch sampleWorld ''owner/repo'' ''feature/b'' ''gho_keyring''
     = ([Do (sampleRequest ''feature/b'')], Inr None)"
  by (simp add: findPRForBranch_def doRequest_def SplitN2_def sampleWorld_def sampleDo_def
      sampleDecode_def apiRequest_def firstPR_def sampleRequest_def)

lemma sample_check:
  "checkBranches sampleWorld ''owner/repo'' ''gho_keyring'' [] [''feature/a'', ''feature/b'']
     = ([Do (sampleRequest ''feature/a''), Print (PRMerged ''feature/a'' 10),
         Do (sampleRequest ''feature/b''), Print (NoPRFound ''feature/b'')],
        [''feature/a''])"
  by (simp add: sample_find_a sample_find_b)

lemma sample_delete:
  "deleteBranches sampleWorld False [''feature/a'']
     = [Run [''git'', ''branch'', ''-D'', ''feature/a''], Print (Deleted ''feature/a'')]"
  by (simp add: deleteBranch_def sampleWorld_def)

lemma sample_tidy:
  "tidy sampleWorld dryRun
     = ([Output [''git'', ''branch'', ''--format=%(refname:short)''], Print (FoundBranches 2),
         Getenv ''GH_TOKEN'', Getenv ''GITHUB_TOKEN'', Getenv ''GH_CONFIG_DIR'',
         ReadFile ''/home/dev/.config/gh/hosts.yml'', KeyringGet ''gh:github.com'' '''',
         Output [''git'', ''remote'', ''get-url'', ''origin''],
         Do (sampleRequest ''feature/a''), Print (PRMerged ''feature/a'' 10),
         Do (sampleRequest ''feature/b''), Print (NoPRFound ''feature/b''),
         Print (BranchesToDelete 1)]
          @ deleteBranches sampleWorld dryRun [''feature/a''], 0)"
  by (simp add: tidy_def sample_branches sample_token sample_repo reconcile_def sample_check
      del: checkBranches.simps deleteBranches.simps)

lemma sample_main:
  "main sampleWorld
     = ([Output [''git'', ''branch'', ''--format=%(refname:short)''], Print (FoundBranches 2),
         Getenv ''GH_TOKEN'', Getenv ''GITHUB_TOKEN'', Getenv ''GH_CONFIG_DIR'',
         ReadFile ''/home/dev/.config/gh/hosts.yml'', KeyringGet ''gh:github.com'' '''',
         Output [''git'', ''remote'', ''get-url'', ''origin''],
         Do (sampleRequest ''feature/a''), Print (PRMerged ''feature/a'' 10),
         Do (sampleRequest ''feature/b''), Print (NoPRFound ''feature/b''),
         Print (BranchesToDelete 1),
         Run [''git'', ''branch'', ''-D'', ''feature/a''], Print (Deleted ''feature/a'')], 0)"
proof -
  have "os_Args sampleWorld = []" by (simp add: sampleWorld_def)
  then have "main sampleWorld = tidy sampleWorld False"
    by (simp add: main_def)
  then show ?thesis
    by (simp add: sample_tidy sample_delete del: deleteBranches.simps)
qed

lemma sample_main_dry:
  "main dryRunWorld
     = ([Output [''git'', ''branch'', ''--format=%(refname:short)''], Print (FoundBranches 2),
         Getenv ''GH_TOKEN'', Getenv ''GITHUB_TOKEN'', Getenv ''GH_CONFIG_DIR'',
         ReadFile ''/home/dev/.config/gh/hosts.yml'', KeyringGet ''gh:github.com'' '''',
         Output [''git'', ''remote'', ''get-url'', ''origin''],
         Do (sampleRequest ''feature/a''), Print (PRMerged ''feature/a'' 10),
         Do (sampleRequest ''feature/b''), Print (NoPRFound ''feature/b''),
         Print (BranchesToDelete 1), Print (WouldDelete ''feature/a'')], 0)"
proof -
  have "main dryRunWorld = tidy sampleWorld True"
    by (simp add: main_def dryRunWorld_def tidy_args)
  then show ?thesis
    by (simp add: sample_tidy)
qed

lemma unreadable_branches:
  "getLocalBranches unreadableWorld = getLocalBranches sampleWorld"
  by (rule getLocalBranches_cong) (simp add: unreadableWorld_def)

lemma unreadable_token:
  "snd (getGitHubToken unreadableWorld)
     = Inl (ReadConfigError ''/home/dev/.config/gh/hosts.yml''
              (ExternalError ''no such file or directory''))"
  by (simp add: unreadableWorld_def sampleWorld_def getGitHubToken_def configDir_def)

lemma bare_scan: "scanLines bareListing = ([''main''], None)"
  by (simp add: bareListing_def scanLines.simps dropCR_def)

lemma bare_collect: "collectBranches [] [''main''] = []"
  by (simp add: trim_defs)

lemma bare_branches: "snd (getLocalBranches bareWorld) = ([], None)"
  by (simp add: getLocalBranches_def bareWorld_def bare_scan bare_collect
      del: collectBranches.simps)

lemma messy_scan:
  "scanLines messyListing
     = ([''  feature/a  '', ''main'', '''', ''master'', CHR 0x09 # ''mainline'', ''fix b''], None)"
  by (simp add: messyListing_def scanLines.simps dropCR_def)

lemma messy_trim:
  "map TrimSpace [''  feature/a  '', ''main'', '''', ''master'', CHR 0x09 # ''mainline'', ''fix b'']
     = [''feature/a'', ''main'', '''', ''master'', ''mainline'', ''fix b'']"
  by (simp add: trim_defs)

lemma messy_lines:
  "reportedLines messyListing
     = [''  feature/a  '' @ [CHR 0x0D], ''main'', '''', ''master'', CHR 0x09 # ''mainline'',
        ''fix b'']"
  by (simp add: reportedLines_def messyListing_def)

lemma messy_fits: "\<forall>l \<in> set (reportedLines messyListing). \<not> tooLong l"
  unfolding messy_lines by (simp add: tooLong_def)

lemma messy_trimmed: "trimmed ''feature/a'' \<and> trimmed ''mainline'' \<and> trimmed ''fix b''"
  by (simp add: trimmed_def spaceRunes_def HasPrefix_def)

subsection \<open>Arguments, exit status, loops\<close>

lemma recognized_flags:
  "helpFlag (filter recognized args) = helpFlag args"
  "dryRunFlag (filter recognized args) = dryRunFlag args"
  by (auto simp: helpFlag_def dryRunFlag_def recognized_def)

lemma snd_tidy:
  "snd (tidy w dryRun) =
     (if discoveryFails w
         \<or> (fst (snd (getLocalBranches w)) \<noteq> [] \<and> (credentialFails w \<or> repoNameFails w))
      then 1 else 0)"
proof -
  obtain ev1 branches e1 where lb: "getLocalBranches w = (ev1, branches, e1)"
    by (cases "getLocalBranches w")
  obtain ev2 r2 where tk: "getGitHubToken w = (ev2, r2)" by (cases "getGitHubToken w")
  obtain ev3 r3 where rn: "getRepoName w = (ev3, r3)" by (cases "getRepoName w")
  show ?thesis
    by (cases e1; cases r2; cases r3)
      (simp_all add: tidy_def discoveryFails_def credentialFails_def repoNameFails_def lb tk rn
        snd_reconcile)
qed

lemma collectBranches_filter:
  "collectBranches branches lines
     = branches @ filter (\<lambda>b. b \<noteq> '''' \<and> b \<noteq> ''main'' \<and> b \<noteq> ''master'') (map TrimSpace lines)"
  by (induction lines arbitrary: branches) simp_all

lemma checkBranches_filter:
  "snd (checkBranches w repo token toDelete branches)
     = toDelete @ filter (\<lambda>b. classify (snd (findPRForBranch w repo b token)) = Merged) branches"
proof (induction branches arbitrary: toDelete)
  case Nil
  show ?case by simp
next
  case (Cons b bs)
  obtain ev r where f: "findPRForBranch w repo b token = (ev, r)"
    by (cases "findPRForBranch w repo b token")
  show ?case
    by (cases r) (auto simp: f Cons.IH classify_def split: option.splits)
qed

subsection \<open>Responses that differ in the head ref\<close>

lemma sameButHeadRefName_refl: "sameButHeadRefName a a"
  by (cases "(a, a)" rule: sameButHeadRefName.cases) auto

lemma firstPR_headref:
  "sameButHeadRef prs1 prs2 \<Longrightarrow> sameButHeadRefName (Inr (firstPR prs1)) (Inr (firstPR prs2))"
  by (cases prs1; cases prs2) (simp_all add: firstPR_def)

lemma doRequest_headref:
  assumes "sameButHeadRefResponse w (http_Do w req) (h req)"
  shows "fst (doRequest w req) = fst (doRequest (w\<lparr>http_Do := h\<rparr>) req)
         \<and> sameButHeadRefName (snd (doRequest w req)) (snd (doRequest (w\<lparr>http_Do := h\<rparr>) req))"
proof (cases "http_Do w req = h req")
  case True
  then have "doRequest (w\<lparr>http_Do := h\<rparr>) req = doRequest w req"
    by (simp add: doRequest_def cong: sum.case_cong option.case_cong if_cong)
  then show ?thesis by (simp add: sameButHeadRefName_refl)
next
  case False
  with assms obtain r1 r2 prs1 prs2 where
    "http_Do w req = Inr r1" "h req = Inr r2" "StatusCode r1 = 200" "StatusCode r2 = 200"
    "snd (Body r1) = None" "snd (Body r2) = None"
    "json_Unmarshal w (fst (Body r1)) = Inr prs1" "json_Unmarshal w (fst (Body r2)) = Inr prs2"
    "sameButHeadRef prs1 prs2"
    by (auto simp: sameButHeadRefResponse_def split: sum.splits)
  then show ?thesis
    by (simp add: doRequest_def firstPR_headref)
qed

lemma findPRForBranch_headref:
  assumes "\<forall>req. sameButHeadRefResponse w (http_Do w req) (h req)"
  shows "fst (findPRForBranch w repo branch token)
           = fst (findPRForBranch (w\<lparr>http_Do := h\<rparr>) repo branch token)
         \<and> sameButHeadRefName (snd (findPRForBranch w repo branch token))
             (snd (findPRForBranch (w\<lparr>http_Do := h\<rparr>) repo branch token))"
  using assms doRequest_headref[of w _ h]
  by (simp add: findPRForBranch_def Let_def sameButHeadRefName_refl split: option.splits)

lemma checkBranches_headref:
  assumes "\<And>branch. fst (findPRForBranch w repo branch token)
                        = fst (findPRForBranch w' repo branch token)
                      \<and> sameButHeadRefName (snd (findPRForBranch w repo branch token))
                          (snd (findPRForBranch w' repo branch token))"
  shows "checkBranches w' repo token toDelete branches
           = checkBranches w repo token toDelete branches"
proof (induction branches arbitrary: toDelete)
  case Nil
  show ?case by simp
next
  case (Cons b bs)
  obtain ev r where f: "findPRForBranch w repo b token = (ev, r)"
    by (cases "findPRForBranch w repo b token")
  obtain ev' r' where f': "findPRForBranch w' repo b token = (ev', r')"
    by (cases "findPRForBranch w' repo b token")
  from assms[of b] f f' have e: "ev' = ev" and s: "sameButHeadRefName r r'" by simp_all
  from s show ?case
    by (cases "(r, r')" rule: sameButHeadRefName.cases)
      (simp_all add: f f' e Cons.IH split: sum.splits option.splits)
qed

subsection \<open>A listing with a long line\<close>

lemma length_longLine: "length longLine = 65536"
  unfolding longLine_def by (rule length_replicate)

lemma longLine_no_newline: "CHR 0x0A \<notin> set longLine"
  unfolding longLine_def by simp

lemma long_lines: "reportedLines longListing = [''feature/a'', longLine, ''feature/b'']"
proof -
  have a: "CHR 0x0A \<notin> set ''feature/a''" by simp
  have b: "reportedLines ''feature/b'' = [''feature/b'']"
    by (rule reportedLines_no_newline) simp_all
  have l: "longListing = ''feature/a'' @ CHR 0x0A # (longLine @ CHR 0x0A # ''feature/b'')"
    by (simp add: longListing_def)
  show ?thesis
    unfolding l reportedLines_newline[OF a] reportedLines_newline[OF longLine_no_newline] b
    by (rule refl)
qed

lemma long_scan: "scanLines longListing = ([''feature/a''], Some ErrTooLong)"
  unfolding scanLines_lines long_lines
  by (simp add: tooLong_def length_longLine dropCR_def)

lemma long_trim: "TrimSpace ''feature/a'' = ''feature/a'' \<and> TrimSpace ''feature/b'' = ''feature/b''"
  by (simp add: trim_defs)

lemma long_branches:
  "getLocalBranches longWorld
     = ([Output [''git'', ''branch'', ''--format=%(refname:short)'']], [''feature/a''],
        Some ErrTooLong)"
  by (simp add: getLocalBranches_def longWorld_def long_scan long_trim
           del: collectBranches.simps add: collectBranches_filter)

lemma long_main:
  "main longWorld
     = ([Output [''git'', ''branch'', ''--format=%(refname:short)''],
         PrintErr (ErrorGettingBranches ErrTooLong)], 1)"
proof -
  have "os_Args longWorld = os_Args sampleWorld" by (simp add: longWorld_def)
  then have "parseArgs False (os_Args longWorld) = Some False"
    by (simp add: sampleWorld_def)
  then show ?thesis
    by (simp add: main_def tidy_def long_branches)
qed

section \<open>The claims\<close>

subsection \<open>C1: credential resolution\<close>

text \<open>
  C1, as stated, has a configuration file that is missing, unreadable or malformed fall
  through to the keyring. This fails on the code: in the sample world with an unreadable
  configuration file the keyring holds a token, yet \<open>getGitHubToken\<close> returns the read
  error straight after the attempt to read the file, and the keyring is never read.
\<close>

theorem getGitHubToken_unreadable_config_counterexample:
  "keyring_Get unreadableWorld ''gh:github.com'' '''' = Inr ''gho_keyring''
   \<and> getGitHubToken unreadableWorld =
       ([Getenv ''GH_TOKEN'', Getenv ''GITHUB_TOKEN'', Getenv ''GH_CONFIG_DIR'',
         ReadFile ''/home/dev/.config/gh/hosts.yml''],
        Inl (ReadConfigError ''/home/dev/.config/gh/hosts.yml''
               (ExternalError ''no such file or directory'')))"
  by (simp add: unreadableWorld_def sampleWorld_def getGitHubToken_def configDir_def)

text \<open>
  C1, amended: credential resolution tries, in order, the variable GH_TOKEN, the variable
  GITHUB_TOKEN, the gh configuration file and the system keyring, and returns the first
  non-empty token. A configuration file that cannot be located, read or decoded ends the
  resolution with that error. The keyring is read exactly when both variables are empty
  and the configuration file was read and decoded and holds no non-empty token for
  github.com; an error of the keyring counts as no token. When no source is left the
  resolution fails with the error "no GitHub token found".
\<close>

theorem getGitHubToken_sources:
  "snd (getGitHubToken w) =
     resolve [envProbe w ''GH_TOKEN'', envProbe w ''GITHUB_TOKEN'', configFileProbe w,
              keyringProbe w]
   \<and> (KeyringGet ''gh:github.com'' '''' \<in> set (fst (getGitHubToken w))) =
       (envProbe w ''GH_TOKEN'' = Nothing \<and> envProbe w ''GITHUB_TOKEN'' = Nothing
        \<and> configFileProbe w = Nothing)"
proof -
  obtain ev r where cd: "configDir w = (ev, r)" by (cases "configDir w")
  have nk: "KeyringGet ''gh:github.com'' '''' \<notin> set ev"
    using configDir_no_keyring[of _ _ w] cd by simp
  show ?thesis
    using nk
    by (auto simp: getGitHubToken_def envProbe_def configFileProbe_def hostsFile_def cd
        tokenFromHosts_def keyringToken_probe
        split: sum.splits option.splits)
qed

subsection \<open>C2: the remote URL parser and its failures\<close>




subsection \<open>C3: stripping the suffix of an SSH URL\<close>

text \<open>
  C3 states that the parser strips at most one trailing \<^verbatim>\<open>.git\<close> from an SSH URL, so that
  \<^verbatim>\<open>git@github.com:owner/name.git.git\<close> is parsed to \<^verbatim>\<open>owner/name.git\<close>. On the code the
  pattern leaves the last \<^verbatim>\<open>.git\<close> out of the second group and \<open>TrimSuffix\<close> then strips
  another one: the result is \<^verbatim>\<open>owner/name\<close>, whatever the URL parser is.
\<close>

theorem parseGitHubRepo_ssh_strips_twice:
  "parseGitHubRepo p ''git@github.com:owner/name.git.git'' = Inr ''owner/name''"
  by (simp add: parseGitHubRepo_def sshMatchAt_def string_defs)

subsection \<open>C4: dry run\<close>

text \<open>
  C4: when the arguments hold \<^verbatim>\<open>--dry-run\<close> or \<^verbatim>\<open>-n\<close>, no run starts the subprocess that
  deletes a branch (the only \<open>Run\<close> of main.go), whatever the branches and the delete set.
  Up to the loop over the delete set the run has the events and the delete set of the run
  without these flags; in the loop it prints its intent for each branch where the other
  run deletes the branch; the exit status is the same.
\<close>

theorem dry_run_never_deletes:
  assumes "dryRunFlag (os_Args w)"
  shows "(\<forall>cmd. Run cmd \<notin> set (fst (main w)))
         \<and> (\<exists>pre toDelete.
               fst (main w) = pre @ map (\<lambda>b. Print (WouldDelete b)) toDelete
               \<and> fst (main (w\<lparr>os_Args := filter (\<lambda>a. a \<noteq> ''--dry-run'' \<and> a \<noteq> ''-n'') (os_Args w)\<rparr>))
                   = pre @ deleteBranches w False toDelete)
         \<and> snd (main (w\<lparr>os_Args := filter (\<lambda>a. a \<noteq> ''--dry-run'' \<and> a \<noteq> ''-n'') (os_Args w)\<rparr>))
             = snd (main w)"
proof -
  let ?a = "filter (\<lambda>a. a \<noteq> ''--dry-run'' \<and> a \<noteq> ''-n'') (os_Args w)"
  have h: "helpFlag ?a = helpFlag (os_Args w)"
    by (auto simp: helpFlag_def)
  have d: "\<not> dryRunFlag ?a"
    by (auto simp: dryRunFlag_def)
  show ?thesis
  proof (cases "helpFlag (os_Args w)")
    case True
    have m: "main w = (usage, 0)" "main (w\<lparr>os_Args := ?a\<rparr>) = (usage, 0)"
      using True h by (simp_all add: main_flags)
    have "fst (main w) = usage @ map (\<lambda>b. Print (WouldDelete b)) []
          \<and> fst (main (w\<lparr>os_Args := ?a\<rparr>)) = usage @ deleteBranches w False []"
      by (simp add: m)
    then show ?thesis
      using usage_no_Run by (metis m fst_conv snd_conv)
  next
    case False
    from tidy_shape[of w] obtain pre td st where
      p: "\<forall>cmd. Run cmd \<notin> set pre"
      and t: "\<forall>dryRun. tidy w dryRun = (pre @ deleteBranches w dryRun td, st)"
      by blast
    have m1: "main w = (pre @ map (\<lambda>b. Print (WouldDelete b)) td, st)"
      using False assms t by (simp add: main_flags deleteBranches_dry)
    have m2: "main (w\<lparr>os_Args := ?a\<rparr>) = (pre @ deleteBranches w False td, st)"
      using False h d t by (simp add: main_flags tidy_args)
    have "\<forall>cmd. Run cmd \<notin> set (fst (main w))"
      using p by (auto simp: m1)
    then show ?thesis
      using m1 m2 by (metis fst_conv snd_conv)
  qed
qed

theorem dry_run_never_deletes_witness:
  "dryRunFlag (os_Args dryRunWorld)
   \<and> (\<forall>cmd. Run cmd \<notin> set (fst (main dryRunWorld)))
   \<and> Print (WouldDelete ''feature/a'') \<in> set (fst (main dryRunWorld))
   \<and> Run [''git'', ''branch'', ''-D'', ''feature/a''] \<in> set (fst (main sampleWorld))"
proof -
  have a: "dryRunFlag (os_Args dryRunWorld)"
    by (simp add: dryRunFlag_def dryRunWorld_def)
  from dry_run_never_deletes[OF a] have b: "\<forall>cmd. Run cmd \<notin> set (fst (main dryRunWorld))"
    by blast
  have c: "Print (WouldDelete ''feature/a'') \<in> set (fst (main dryRunWorld))"
    by (simp add: sample_main_dry)
  have d: "Run [''git'', ''branch'', ''-D'', ''feature/a''] \<in> set (fst (main sampleWorld))"
    by (simp add: sample_main)
  from a b c d show ?thesis by blast
qed

subsection \<open>C5: the exit status\<close>

text \<open>
  C5: the exit status is 1 exactly when one of the three fatal steps is run and fails, and
  0 otherwise. Branch discovery is run unless the arguments ask for help; the token and
  then the repository name are resolved when discovery found a branch to check. A run
  that exits with status 1 has started no subprocess that deletes a branch. The answers to
  the lookups (building the request, the HTTP exchange, decoding the body) and to the
  deletions have no effect on the exit status.
\<close>

theorem exit_status:
  "snd (main w) =
     (if \<not> helpFlag (os_Args w)
         \<and> (discoveryFails w
            \<or> (fst (snd (getLocalBranches w)) \<noteq> [] \<and> (credentialFails w \<or> repoNameFails w)))
      then 1 else 0)
   \<and> (snd (main w) = 1 \<longrightarrow> (\<forall>cmd. Run cmd \<notin> set (fst (main w))))
   \<and> snd (main (w\<lparr>http_NewRequest := n, http_Do := h, json_Unmarshal := j, exec_Run := r\<rparr>))
       = snd (main w)"
proof -
  let ?w' = "w\<lparr>http_NewRequest := n, http_Do := h, json_Unmarshal := j, exec_Run := r\<rparr>"
  have A: "snd (main w) =
     (if \<not> helpFlag (os_Args w)
         \<and> (discoveryFails w
            \<or> (fst (snd (getLocalBranches w)) \<noteq> [] \<and> (credentialFails w \<or> repoNameFails w)))
      then 1 else 0)" for w
    by (simp add: main_flags snd_tidy)
  have B: "\<forall>cmd. Run cmd \<notin> set (fst (main w))" if one: "snd (main w) = 1"
  proof (cases "helpFlag (os_Args w)")
    case True
    then show ?thesis using one by (simp add: main_flags)
  next
    case False
    from tidy_shape[of w] obtain pre td st where
      p: "\<forall>cmd. Run cmd \<notin> set pre" and s: "st = 1 \<longrightarrow> td = []"
      and t: "\<forall>dryRun. tidy w dryRun = (pre @ deleteBranches w dryRun td, st)"
      by blast
    have m: "main w = (pre @ deleteBranches w (dryRunFlag (os_Args w)) td, st)"
      using False t by (simp add: main_flags)
    with one s have "td = []" by simp
    with m p show ?thesis by simp
  qed
  have l: "getLocalBranches ?w' = getLocalBranches w"
    by (rule getLocalBranches_cong) simp
  have g: "getGitHubToken ?w' = getGitHubToken w"
    by (rule getGitHubToken_cong) simp_all
  have rp: "getRepoName ?w' = getRepoName w"
    by (rule getRepoName_cong) simp_all
  have C: "snd (main ?w') = snd (main w)"
    unfolding A discoveryFails_def credentialFails_def repoNameFails_def l g rp by simp
  from A B C show ?thesis by blast
qed

theorem exit_status_witness:
  "snd (main unreadableWorld) = 1
   \<and> (\<forall>cmd. Run cmd \<notin> set (fst (main unreadableWorld)))
   \<and> snd (main sampleWorld) = 0
   \<and> snd (main (sampleWorld\<lparr>http_NewRequest := (\<lambda>method u. None),
                              http_Do := (\<lambda>req. Inl (ExternalError ''connection refused'')),
                              json_Unmarshal := sampleDecode,
                              exec_Run := (\<lambda>cmd. Some (ExternalError ''exit status 1''))\<rparr>)) = 0"
proof -
  have h: "\<not> helpFlag (os_Args unreadableWorld)"
    by (simp add: helpFlag_def unreadableWorld_def sampleWorld_def)
  have d: "\<not> discoveryFails unreadableWorld"
    by (simp add: discoveryFails_def unreadable_branches sample_branches)
  have b: "fst (snd (getLocalBranches unreadableWorld)) \<noteq> []"
    by (simp add: unreadable_branches sample_branches)
  have c: "credentialFails unreadableWorld"
    by (simp add: credentialFails_def unreadable_token)
  have one: "snd (main unreadableWorld) = 1"
    using exit_status[of unreadableWorld] h d b c by simp
  have two: "\<forall>cmd. Run cmd \<notin> set (fst (main unreadableWorld))"
    using exit_status[of unreadableWorld] one by blast
  have three: "snd (main sampleWorld) = 0"
    by (simp add: sample_main)
  have four: "snd (main (sampleWorld\<lparr>http_NewRequest := (\<lambda>method u. None),
                              http_Do := (\<lambda>req. Inl (ExternalError ''connection refused'')),
                              json_Unmarshal := sampleDecode,
                              exec_Run := (\<lambda>cmd. Some (ExternalError ''exit status 1''))\<rparr>)) = 0"
    using exit_status[where w = sampleWorld and n = "\<lambda>method u. None"
        and h = "\<lambda>req. Inl (ExternalError ''connection refused'')"
        and j = sampleDecode and r = "\<lambda>cmd. Some (ExternalError ''exit status 1'')"] three
    by simp
  from one two three four show ?thesis by blast
qed

subsection \<open>C6: the delete set\<close>

text \<open>
  C6: the delete set holds, in the order of discovery, the branches whose verdict is
  Merged. A branch whose lookup succeeds with a match is in the delete set if and only if
  the merge timestamp of the match is not empty; a branch whose lookup fails or finds no
  match is not in it, and the branches after it are still classified.
\<close>

theorem delete_set_is_merged:
  "snd (checkBranches w repo token [] branches)
     = filter (\<lambda>b. classify (snd (findPRForBranch w repo b token)) = Merged) branches
   \<and> (\<forall>b \<in> set branches. \<forall>pr.
         snd (findPRForBranch w repo b token) = Inr (Some pr) \<longrightarrow>
           (b \<in> set (snd (checkBranches w repo token [] branches))) = (MergedAt pr \<noteq> ''''))
   \<and> (\<forall>b. isl (snd (findPRForBranch w repo b token))
             \<or> snd (findPRForBranch w repo b token) = Inr None \<longrightarrow>
           b \<notin> set (snd (checkBranches w repo token [] branches)))"
proof -
  have A: "snd (checkBranches w repo token [] branches)
     = filter (\<lambda>b. classify (snd (findPRForBranch w repo b token)) = Merged) branches"
    by (simp add: checkBranches_filter)
  have B: "(b \<in> set (snd (checkBranches w repo token [] branches))) = (MergedAt pr \<noteq> '''')"
    if "b \<in> set branches" "snd (findPRForBranch w repo b token) = Inr (Some pr)" for b pr
    using that by (simp add: A classify_def)
  have C: "b \<notin> set (snd (checkBranches w repo token [] branches))"
    if "isl (snd (findPRForBranch w repo b token))
        \<or> snd (findPRForBranch w repo b token) = Inr None" for b
    using that by (auto simp: A classify_def isl_def)
  from A B C show ?thesis by blast
qed

theorem delete_set_is_merged_witness:
  "''feature/a'' \<in> set [''feature/a'', ''feature/b'']
   \<and> snd (findPRForBranch sampleWorld ''owner/repo'' ''feature/a'' ''gho_keyring'')
       = Inr (Some \<lparr>Number = 10, State = ''closed'', MergedAt = ''2024-05-01T10:00:00Z'',
                    HeadRefName = ''feature/a''\<rparr>)
   \<and> snd (findPRForBranch sampleWorld ''owner/repo'' ''feature/b'' ''gho_keyring'') = Inr None
   \<and> ''feature/a'' \<in> set (snd (checkBranches sampleWorld ''owner/repo'' ''gho_keyring'' []
                                   [''feature/a'', ''feature/b'']))
   \<and> ''feature/b'' \<notin> set (snd (checkBranches sampleWorld ''owner/repo'' ''gho_keyring'' []
                                   [''feature/a'', ''feature/b'']))"
proof -
  note c = delete_set_is_merged[of sampleWorld "''owner/repo''" "''gho_keyring''"
      "[''feature/a'', ''feature/b'']"]
  have a: "snd (findPRForBranch sampleWorld ''owner/repo'' ''feature/a'' ''gho_keyring'')
       = Inr (Some \<lparr>Number = 10, State = ''closed'', MergedAt = ''2024-05-01T10:00:00Z'',
                    HeadRefName = ''feature/a''\<rparr>)"
    by (simp add: sample_find_a)
  have b: "snd (findPRForBranch sampleWorld ''owner/repo'' ''feature/b'' ''gho_keyring'') = Inr None"
    by (simp add: sample_find_b)
  have m: "MergedAt \<lparr>Number = 10, State = ''closed'', MergedAt = ''2024-05-01T10:00:00Z'',
                    HeadRefName = ''feature/a''\<rparr> \<noteq> ''''"
    by simp
  have i: "''feature/a'' \<in> set [''feature/a'', ''feature/b'']" by simp
  from c a m i have d: "''feature/a'' \<in> set (snd (checkBranches sampleWorld ''owner/repo''
                          ''gho_keyring'' [] [''feature/a'', ''feature/b'']))"
    by blast
  from c b have e: "''feature/b'' \<notin> set (snd (checkBranches sampleWorld ''owner/repo''
                          ''gho_keyring'' [] [''feature/a'', ''feature/b'']))"
    by blast
  from i a b d e show ?thesis by blast
qed

subsection \<open>C7: the local branches\<close>

text \<open>
  C7, as stated, has \<open>getLocalBranches\<close> return, for every line sequence that the listing
  command produces, the lines in the order reported, trimmed, without the empty ones and
  without main and master. This fails on the code: the scanner holds a line of fewer than
  65536 bytes only. On the listing feature/a, a line of 65536 bytes, feature/b, the
  function returns feature/a alone together with the error \<open>ErrTooLong\<close>; feature/b is a
  reported line that is not returned, and the run ends with status 1.
\<close>

theorem getLocalBranches_long_line_counterexample:
  "exec_Output longWorld [''git'', ''branch'', ''--format=%(refname:short)''] = Inr longListing
   \<and> reportedLines longListing = [''feature/a'', longLine, ''feature/b'']
   \<and> length longLine = 65536
   \<and> TrimSpace ''feature/b'' = ''feature/b''
   \<and> getLocalBranches longWorld
       = ([Output [''git'', ''branch'', ''--format=%(refname:short)'']], [''feature/a''],
          Some ErrTooLong)
   \<and> fst (snd (getLocalBranches longWorld))
       \<noteq> filter (\<lambda>b. b \<noteq> '''' \<and> b \<noteq> ''main'' \<and> b \<noteq> ''master'')
           (map TrimSpace (reportedLines longListing))
   \<and> main longWorld
       = ([Output [''git'', ''branch'', ''--format=%(refname:short)''],
           PrintErr (ErrorGettingBranches ErrTooLong)], 1)"
proof -
  have a: "exec_Output longWorld [''git'', ''branch'', ''--format=%(refname:short)'']
             = Inr longListing"
    by (simp add: longWorld_def)
  have "''feature/b'' \<in> set (filter (\<lambda>b. b \<noteq> '''' \<and> b \<noteq> ''main'' \<and> b \<noteq> ''master'')
           (map TrimSpace (reportedLines longListing)))"
    unfolding long_lines using long_trim by simp
  moreover have "''feature/b'' \<notin> set (fst (snd (getLocalBranches longWorld)))"
    unfolding long_branches by simp
  ultimately have n: "fst (snd (getLocalBranches longWorld))
       \<noteq> filter (\<lambda>b. b \<noteq> '''' \<and> b \<noteq> ''main'' \<and> b \<noteq> ''master'')
           (map TrimSpace (reportedLines longListing))"
    by metis
  from a n show ?thesis
    using long_lines length_longLine long_trim long_branches long_main
    by (intro conjI) simp_all
qed

text \<open>
  C7, amended: when the listing command has run, \<open>getLocalBranches\<close> takes the lines of
  its output, in the order reported, up to the first line of 65536 bytes or more; from
  each it removes one carriage return at the end and the surrounding white space; it
  drops the empty entries and exactly the names main and master, and keeps every other
  name as it is. Its error is \<open>ErrTooLong\<close> when some line has 65536 bytes or more, and
  there is none otherwise. No branch returned starts or ends with a white space rune.
  Where no line has 65536 bytes or more, every reported line is taken and there is no
  error.
\<close>

theorem getLocalBranches_lines:
  assumes "exec_Output w [''git'', ''branch'', ''--format=%(refname:short)''] = Inr output"
  shows "getLocalBranches w
           = ([Output [''git'', ''branch'', ''--format=%(refname:short)'']],
              filter (\<lambda>b. b \<noteq> '''' \<and> b \<noteq> ''main'' \<and> b \<noteq> ''master'')
                (map TrimSpace
                   (map dropCR (takeWhile (\<lambda>l. \<not> tooLong l) (reportedLines output)))),
              if list_ex tooLong (reportedLines output) then Some ErrTooLong else None)
         \<and> (\<forall>b \<in> set (fst (snd (getLocalBranches w))). trimmed b)
         \<and> ((\<forall>l \<in> set (reportedLines output). \<not> tooLong l) \<longrightarrow>
              getLocalBranches w
                = ([Output [''git'', ''branch'', ''--format=%(refname:short)'']],
                   filter (\<lambda>b. b \<noteq> '''' \<and> b \<noteq> ''main'' \<and> b \<noteq> ''master'')
                     (map TrimSpace (map dropCR (reportedLines output))),
                   None))"
proof -
  let ?keep = "\<lambda>b. b \<noteq> '''' \<and> b \<noteq> ''main'' \<and> b \<noteq> ''master''"
  have A: "getLocalBranches w
           = ([Output [''git'', ''branch'', ''--format=%(refname:short)'']],
              filter ?keep
                (map TrimSpace
                   (map dropCR (takeWhile (\<lambda>l. \<not> tooLong l) (reportedLines output)))),
              if list_ex tooLong (reportedLines output) then Some ErrTooLong else None)"
    using assms by (simp add: getLocalBranches_def collectBranches_filter scanLines_lines)
  have C: "\<forall>b \<in> set (fst (snd (getLocalBranches w))). trimmed b"
    unfolding A by (auto simp: trimmed_TrimSpace)
  have D: "getLocalBranches w
                = ([Output [''git'', ''branch'', ''--format=%(refname:short)'']],
                   filter ?keep (map TrimSpace (map dropCR (reportedLines output))),
                   None)"
    if short: "\<forall>l \<in> set (reportedLines output). \<not> tooLong l"
  proof -
    from short
    have tw: "takeWhile (\<lambda>l. \<not> tooLong l) (reportedLines output) = reportedLines output"
      by (simp add: takeWhile_eq_all_conv)
    from short have nl: "\<not> list_ex tooLong (reportedLines output)"
      by (simp add: list_ex_iff)
    show ?thesis unfolding A tw using nl by simp
  qed
  from A C D show ?thesis by blast
qed

theorem getLocalBranches_lines_witness:
  "exec_Output (sampleWorld\<lparr>exec_Output := (\<lambda>cmd. Inr messyListing)\<rparr>)
       [''git'', ''branch'', ''--format=%(refname:short)''] = Inr messyListing
   \<and> reportedLines messyListing
       = [''  feature/a  '' @ [CHR 0x0D], ''main'', '''', ''master'', CHR 0x09 # ''mainline'',
          ''fix b'']
   \<and> list_all (\<lambda>l. \<not> tooLong l) (reportedLines messyListing)
   \<and> getLocalBranches (sampleWorld\<lparr>exec_Output := (\<lambda>cmd. Inr messyListing)\<rparr>)
       = ([Output [''git'', ''branch'', ''--format=%(refname:short)'']],
          [''feature/a'', ''mainline'', ''fix b''], None)
   \<and> trimmed ''feature/a'' \<and> trimmed ''mainline'' \<and> trimmed ''fix b''"
proof -
  define w where "w = sampleWorld\<lparr>exec_Output := (\<lambda>cmd. Inr messyListing)\<rparr>"
  define keep :: "string \<Rightarrow> bool"
    where "keep = (\<lambda>b. b \<noteq> '''' \<and> b \<noteq> ''main'' \<and> b \<noteq> ''master'')"
  have a: "exec_Output w [''git'', ''branch'', ''--format=%(refname:short)''] = Inr messyListing"
    by (simp add: w_def)
  note t = getLocalBranches_lines[OF a, folded keep_def]
  have t3: "getLocalBranches w
              = ([Output [''git'', ''branch'', ''--format=%(refname:short)'']],
                 filter keep (map TrimSpace (map dropCR (reportedLines messyListing))), None)"
    by (rule t[THEN conjunct2, THEN conjunct2, THEN mp, OF messy_fits])
  have d: "map dropCR (reportedLines messyListing)
             = [''  feature/a  '', ''main'', '''', ''master'', CHR 0x09 # ''mainline'', ''fix b'']"
    unfolding messy_lines by (simp add: dropCR_def)
  have f: "filter keep [''feature/a'', ''main'', '''', ''master'', ''mainline'', ''fix b'']
             = [''feature/a'', ''mainline'', ''fix b'']"
    by (simp add: keep_def)
  have g: "getLocalBranches w
       = ([Output [''git'', ''branch'', ''--format=%(refname:short)'']],
          [''feature/a'', ''mainline'', ''fix b''], None)"
    unfolding t3 d messy_trim f by (rule refl)
  have s: "list_all (\<lambda>l. \<not> tooLong l) (reportedLines messyListing)"
    using messy_fits by (simp add: list_all_iff)
  from a g s show ?thesis
    unfolding w_def using messy_lines messy_trimmed by (intro conjI) simp_all
qed

subsection \<open>C8: no branch to check\<close>

text \<open>
  C8: when the arguments do not ask for help and branch discovery yields no branch and no
  error, the run consists of the listing command and the notice, and the exit status is 0:
  no token is looked for, the remote is not asked for, and no request is made. In
  particular the run succeeds in a world where the resolution of the token and of the
  repository name would fail.
\<close>

theorem no_branches_exits_early:
  assumes "\<not> helpFlag (os_Args w)" and "snd (getLocalBranches w) = ([], None)"
  shows "main w = ([Output [''git'', ''branch'', ''--format=%(refname:short)''],
                    Print (Line ''No branches to check (only main exists)'')], 0)"
proof -
  have ev: "fst (getLocalBranches w) = [Output [''git'', ''branch'', ''--format=%(refname:short)'']]"
    by (simp add: getLocalBranches_def split: sum.splits)
  obtain ev1 bs e where lb: "getLocalBranches w = (ev1, bs, e)"
    by (cases "getLocalBranches w")
  with assms(2) ev have "getLocalBranches w
      = ([Output [''git'', ''branch'', ''--format=%(refname:short)'']], [], None)"
    by simp
  then show ?thesis
    using assms(1) by (simp add: main_flags tidy_def)
qed

theorem no_branches_exits_early_witness:
  "\<not> helpFlag (os_Args bareWorld) \<and> snd (getLocalBranches bareWorld) = ([], None)
   \<and> credentialFails bareWorld \<and> repoNameFails bareWorld
   \<and> main bareWorld = ([Output [''git'', ''branch'', ''--format=%(refname:short)''],
                        Print (Line ''No branches to check (only main exists)'')], 0)"
proof -
  have h: "\<not> helpFlag (os_Args bareWorld)"
    by (simp add: helpFlag_def bareWorld_def sampleWorld_def)
  have c: "credentialFails bareWorld"
    by (simp add: credentialFails_def bareWorld_def sampleWorld_def getGitHubToken_def
        configDir_def)
  have r: "repoNameFails bareWorld"
    by (simp add: repoNameFails_def bareWorld_def getRepoName_def)
  from no_branches_exits_early[OF h bare_branches] h bare_branches c r show ?thesis by blast
qed

subsection \<open>C9: unrecognized arguments\<close>

text \<open>
  C9: the loop over the arguments recognizes \<^verbatim>\<open>--dry-run\<close>, \<^verbatim>\<open>-n\<close>, \<^verbatim>\<open>--help\<close> and \<^verbatim>\<open>-h\<close>
  only: for every list of arguments, the run is the run with the other arguments removed,
  event by event and with the same exit status. So a run with a misspelt dry-run flag
  deletes the merged branches, as the sample run with such arguments does.
\<close>

theorem unrecognized_arguments_ignored:
  "main (w\<lparr>os_Args := filter recognized (os_Args w)\<rparr>) = main w"
  by (simp add: main_flags recognized_flags tidy_args)

theorem unrecognized_arguments_ignored_witness:
  "filter recognized [''--dryrun'', ''-v'', ''feature/a''] = []
   \<and> main (sampleWorld\<lparr>os_Args := [''--dryrun'', ''-v'', ''feature/a'']\<rparr>) = main sampleWorld
   \<and> Run [''git'', ''branch'', ''-D'', ''feature/a'']
        \<in> set (fst (main (sampleWorld\<lparr>os_Args := [''--dryrun'', ''-v'', ''feature/a'']\<rparr>)))"
proof -
  have a: "filter recognized [''--dryrun'', ''-v'', ''feature/a''] = []"
    by (simp add: recognized_def)
  have e: "sampleWorld\<lparr>os_Args := []\<rparr> = sampleWorld"
    by (simp add: sampleWorld_def)
  from unrecognized_arguments_ignored
         [of "sampleWorld\<lparr>os_Args := [''--dryrun'', ''-v'', ''feature/a'']\<rparr>"]
  have b: "main (sampleWorld\<lparr>os_Args := [''--dryrun'', ''-v'', ''feature/a'']\<rparr>) = main sampleWorld"
    by (simp add: recognized_def e)
  have c: "Run [''git'', ''branch'', ''-D'', ''feature/a''] \<in> set (fst (main sampleWorld))"
    by (simp add: sample_main)
  from a b c show ?thesis by simp
qed

subsection \<open>C10: the head ref of the response\<close>

text \<open>
  C10: let two worlds differ in the answers to the HTTP requests only, and let the two
  answers to every request be equal, or be successful lookup responses whose decoded
  bodies differ at most in the head ref of the first pull request. Then the two runs are
  the same: the same events, so the same verdict printed for every branch and the same
  branches deleted, and the same exit status.
\<close>

theorem head_ref_irrelevant:
  assumes "\<forall>req. sameButHeadRefResponse w (http_Do w req) (h req)"
  shows "main (w\<lparr>http_Do := h\<rparr>) = main w"
proof -
  let ?w' = "w\<lparr>http_Do := h\<rparr>"
  have l: "getLocalBranches ?w' = getLocalBranches w"
    by (rule getLocalBranches_cong) simp
  have g: "getGitHubToken ?w' = getGitHubToken w"
    by (rule getGitHubToken_cong) simp_all
  have rp: "getRepoName ?w' = getRepoName w"
    by (rule getRepoName_cong) simp_all
  have c: "checkBranches ?w' repo token toDelete branches
             = checkBranches w repo token toDelete branches" for repo token toDelete branches
    by (rule checkBranches_headref) (rule findPRForBranch_headref[OF assms])
  have d: "deleteBranches ?w' dryRun toDelete = deleteBranches w dryRun toDelete"
    for dryRun toDelete
    by (rule deleteBranches_cong) simp
  have r: "reconcile ?w' dryRun repo token branches = reconcile w dryRun repo token branches"
    for dryRun repo token branches
    unfolding reconcile_def c d by (rule refl)
  have t: "tidy ?w' dryRun = tidy w dryRun" for dryRun
    unfolding tidy_def l g rp r by (rule refl)
  show ?thesis
    unfolding main_def t by simp
qed

theorem head_ref_irrelevant_witness:
  "(\<forall>req. sameButHeadRefResponse sampleWorld (http_Do sampleWorld req) (otherHeadDo req))
   \<and> http_Do sampleWorld (sampleRequest ''feature/a'') \<noteq> otherHeadDo (sampleRequest ''feature/a'')
   \<and> main (sampleWorld\<lparr>http_Do := otherHeadDo\<rparr>) = main sampleWorld"
proof -
  have a: "\<forall>req. sameButHeadRefResponse sampleWorld (http_Do sampleWorld req) (otherHeadDo req)"
    by (simp add: sameButHeadRefResponse_def sampleWorld_def sampleDo_def otherHeadDo_def
        sampleDecode_def)
  have b: "http_Do sampleWorld (sampleRequest ''feature/a'')
             \<noteq> otherHeadDo (sampleRequest ''feature/a'')"
    by (simp add: sampleWorld_def sampleDo_def otherHeadDo_def sampleRequest_def apiRequest_def)
  from head_ref_irrelevant[OF a] a b show ?thesis by blast
qed

end
